theory Spec2Isabelle
  imports Main
begin

section \<open>Python library functions used by the program\<close>

text \<open>
  Python strings are modelled as \<open>string\<close>, one \<open>char\<close> per code point; the only
  code points beyond ASCII that the program itself writes are the two guillemets of its
  messages (U+00AB and U+00BB), which are \<open>CHR 0xAB\<close> and \<open>CHR 0xBB\<close>.
\<close>

text \<open>
  Exceptions are values. A \<open>ValueError\<close> carries either the message the program gives
  it, or the library condition that raised it (the text of a library message depends on
  the interpreter version, the condition does not).
\<close>

datatype value_error =
    Message string
  | InvalidLiteral string
  | YearOutOfRange int
  | MonthOutOfRange int
  | DayOutOfRange int
  | InvalidIsoformat string
  | EmptyName string
  | InvalidName string

datatype error =
    StopIteration
  | AssertionError
  | IndexError
  | AttributeError string
  | ValueError value_error
  | External string

text \<open>\<^verbatim>\<open>s.split(c)\<close> for a one-character separator: never the empty list.\<close>

fun split_chr :: "char \<Rightarrow> string \<Rightarrow> string list" where
  "split_chr c [] = [[]]"
| "split_chr c (x # xs) =
     (if x = c then [] # split_chr c xs
      else (case split_chr c xs of
              [] \<Rightarrow> [[x]]
            | w # ws \<Rightarrow> (x # w) # ws))"

text \<open>
  \<^verbatim>\<open>int(s)\<close> on a string, base 10: surrounding whitespace is dropped, one sign is
  allowed, then decimal digits, single underscores allowed between two digits. The
  whitespace of \<^verbatim>\<open>int\<close> is tab, line feed, vertical tab, form feed, carriage return
  and space, and beyond ASCII the code points U+0085 and U+00A0. More than 4300 digits is
  refused like a string that is no literal (the interpreter's default limit).
\<close>

definition is_space :: "char \<Rightarrow> bool" where
  "is_space c = ((of_char c :: nat) \<in> {9, 10, 11, 12, 13, 32, 133, 160})"

definition is_digit :: "char \<Rightarrow> bool" where
  "is_digit c = (48 \<le> (of_char c :: nat) \<and> (of_char c :: nat) \<le> 57)"

definition digit_val :: "char \<Rightarrow> nat" where
  "digit_val c = (of_char c :: nat) - 48"

definition strip :: "string \<Rightarrow> string" where
  "strip s = rev (dropWhile is_space (rev (dropWhile is_space s)))"

text \<open>The flag says that the previous character was not a digit (start, or underscore).\<close>

fun digits_of :: "bool \<Rightarrow> string \<Rightarrow> nat list option" where
  "digits_of after_sep [] = (if after_sep then None else Some [])"
| "digits_of after_sep (c # cs) =
     (if c = CHR ''_'' then (if after_sep then None else digits_of True cs)
      else if is_digit c then map_option (Cons (digit_val c)) (digits_of False cs)
      else None)"

definition decimal_value :: "nat list \<Rightarrow> nat" where
  "decimal_value ds = foldl (\<lambda>a d. 10 * a + d) 0 ds"

definition py_int :: "string \<Rightarrow> error + int" where
  "py_int s =
     (let t = strip s;
          neg = (t \<noteq> [] \<and> hd t = CHR ''-'');
          body = (if t \<noteq> [] \<and> (hd t = CHR ''-'' \<or> hd t = CHR ''+'') then tl t else t)
      in case digits_of True body of
           None \<Rightarrow> Inl (ValueError (InvalidLiteral s))
         | Some ds \<Rightarrow>
             if length ds > 4300 then Inl (ValueError (InvalidLiteral s))
             else Inr (if neg then - int (decimal_value ds) else int (decimal_value ds)))"

text \<open>\<^verbatim>\<open>str(n)\<close> on an integer.\<close>

definition digit_chr :: "nat \<Rightarrow> char" where
  "digit_chr d = char_of (48 + d)"

fun str_nat :: "nat \<Rightarrow> string" where
  "str_nat n = (if n < 10 then [digit_chr n] else str_nat (n div 10) @ [digit_chr (n mod 10)])"

declare str_nat.simps [simp del]

definition py_str :: "int \<Rightarrow> string" where
  "py_str i = (if i < 0 then CHR ''-'' # str_nat (nat (- i)) else str_nat (nat i))"

text \<open>
  \<^verbatim>\<open>datetime.date(year, month, day)\<close>: the fields are checked in this order, and a
  field out of range raises \<open>ValueError\<close>.
\<close>

record date =
  year :: int
  month :: int
  day :: int

definition is_leap :: "int \<Rightarrow> bool" where
  "is_leap y = (y mod 4 = 0 \<and> (y mod 100 \<noteq> 0 \<or> y mod 400 = 0))"

definition days_in_month :: "int \<Rightarrow> int \<Rightarrow> int" where
  "days_in_month y m =
     (if m = 2 then (if is_leap y then 29 else 28)
      else if m = 4 \<or> m = 6 \<or> m = 9 \<or> m = 11 then 30 else 31)"

definition py_date :: "int \<Rightarrow> int \<Rightarrow> int \<Rightarrow> error + date" where
  "py_date y m d =
     (if y < 1 \<or> 9999 < y then Inl (ValueError (YearOutOfRange y))
      else if m < 1 \<or> 12 < m then Inl (ValueError (MonthOutOfRange m))
      else if d < 1 \<or> days_in_month y m < d then Inl (ValueError (DayOutOfRange d))
      else Inr \<lparr>year = y, month = m, day = d\<rparr>)"

section \<open>Raw track records and normalized track information\<close>

text \<open>
  The raw record is the dictionary the catalog service returns for one track; only the
  keys the program reads are kept. \<^verbatim>\<open>release_date_precision\<close> may be \<^verbatim>\<open>None\<close>.
\<close>

record raw_image =
  image_url :: string
  image_height :: int

record raw_artist =
  artist_name :: string

record raw_album =
  alb_name :: string
  alb_images :: "raw_image list"
  alb_release_date :: string
  alb_release_date_precision :: "string option"

record raw_track =
  trk_name :: string
  trk_artists :: "raw_artist list"
  trk_track_number :: int
  trk_disc_number :: int
  trk_album :: raw_album

text \<open>
  \<^verbatim>\<open>UnspotifyTrackInfo\<close> (src/unspotify.py). \<^verbatim>\<open>album_image_url\<close> is declared but
  assigned only inside the scan of the images, so it may be unset: \<open>None\<close> here.
\<close>

record UnspotifyTrackInfo =
  name :: string
  artist :: string
  track_number :: int
  disc_number :: int
  album_name :: string
  album_image_url :: "string option"
  release_date :: "date option"

text \<open>
  \<^verbatim>\<open>SpotlessTrackInfo\<close> is imported from \<^verbatim>\<open>src.spotless\<close>, which is not among the
  sources; its fields are the keyword arguments \<^verbatim>\<open>_construct_track\<close> passes.
\<close>

record SpotlessTrackInfo =
  sl_name :: string
  sl_artists :: "string list"
  sl_track_number :: int
  sl_album_name :: string
  sl_album_image_url :: "string option"
  sl_release_date :: "date option"

subsection \<open>Cover image selection\<close>

text \<open>
  Both normalizers run the same loop over \<^verbatim>\<open>track["album"]["images"]\<close>:
  \<^verbatim>\<open>
  max_album_image_size = 0
  for image in album_images:
      if image["height"] > max_album_image_size:
          max_album_image_size = image["height"]
          album_image_url = image["url"]
  \<close>
  The loop state is the pair of the maximum so far and the URL so far.
\<close>

fun scan_images :: "raw_image list \<Rightarrow> int \<times> string option \<Rightarrow> int \<times> string option" where
  "scan_images [] st = st"
| "scan_images (img # rest) (max_album_image_size, u) =
     (if image_height img > max_album_image_size
      then scan_images rest (image_height img, Some (image_url img))
      else scan_images rest (max_album_image_size, u))"

definition select_album_image_url :: "raw_image list \<Rightarrow> string option" where
  "select_album_image_url album_images = snd (scan_images album_images (0, None))"

subsection \<open>Release date normalization\<close>

text \<open>
  Both normalizers have the same \<^verbatim>\<open>match\<close> on the precision tag.
  \<^verbatim>\<open>datetime.date.fromisoformat\<close> is a parameter: which strings it accepts
  depends on the interpreter version. It returns the date, or \<open>None\<close> where the
  library raises its \<open>ValueError\<close>.
\<close>

definition date_fromisoformat :: "(string \<Rightarrow> date option) \<Rightarrow> string \<Rightarrow> error + date" where
  "date_fromisoformat fromisoformat s =
     (case fromisoformat s of
        None \<Rightarrow> Inl (ValueError (InvalidIsoformat s))
      | Some d \<Rightarrow> Inr d)"

definition unsupported_precision :: "string \<Rightarrow> string" where
  "unsupported_precision p = ''Unsupported precision '' @ [CHR 0xAB] @ p @ [CHR 0xBB]"

definition month_release_date :: "string \<Rightarrow> error + date" where
  "month_release_date s =
     (let release_date_parts = split_chr CHR ''-'' s
      in case py_int (hd release_date_parts) of
           Inl e \<Rightarrow> Inl e
         | Inr y \<Rightarrow>
             (case tl release_date_parts of
                [] \<Rightarrow> Inl IndexError
              | m # _ \<Rightarrow>
                  (case py_int m of
                     Inl e \<Rightarrow> Inl e
                   | Inr mm \<Rightarrow> py_date y (mm + 1) 1)))"

definition year_release_date :: "string \<Rightarrow> error + date" where
  "year_release_date s =
     (case py_int s of Inl e \<Rightarrow> Inl e | Inr y \<Rightarrow> py_date y 1 1)"

definition normalize_release_date ::
  "(string \<Rightarrow> date option) \<Rightarrow> raw_album \<Rightarrow> error + date option" where
  "normalize_release_date fromisoformat alb =
     (case alb_release_date_precision alb of
        None \<Rightarrow> Inr None
      | Some p \<Rightarrow>
          if p = ''day'' then map_sum id Some (date_fromisoformat fromisoformat (alb_release_date alb))
          else if p = ''month'' then map_sum id Some (month_release_date (alb_release_date alb))
          else if p = ''year'' then map_sum id Some (year_release_date (alb_release_date alb))
          else Inl (ValueError (Message (unsupported_precision p))))"

subsection \<open>The two normalizers\<close>

text \<open>
  \<^verbatim>\<open>UnspotifyTrackInfo.__init__\<close>: the first artist is read before anything else can
  fail, so an empty artist list raises \<open>IndexError\<close>.
\<close>

definition UnspotifyTrackInfo_init ::
  "(string \<Rightarrow> date option) \<Rightarrow> raw_track \<Rightarrow> error + UnspotifyTrackInfo" where
  "UnspotifyTrackInfo_init fromisoformat track =
     (case trk_artists track of
        [] \<Rightarrow> Inl IndexError
      | a # _ \<Rightarrow>
          (case normalize_release_date fromisoformat (trk_album track) of
             Inl e \<Rightarrow> Inl e
           | Inr d \<Rightarrow>
               Inr \<lparr>name = trk_name track,
                    artist = artist_name a,
                    track_number = trk_track_number track,
                    disc_number = trk_disc_number track,
                    album_name = alb_name (trk_album track),
                    album_image_url = select_album_image_url (alb_images (trk_album track)),
                    release_date = d\<rparr>))"

text \<open>\<^verbatim>\<open>_SpotifyPlaylistIterator._construct_track\<close> (src/src/spotify.py).\<close>

definition construct_track ::
  "(string \<Rightarrow> date option) \<Rightarrow> raw_track \<Rightarrow> error + SpotlessTrackInfo" where
  "construct_track fromisoformat track =
     (case normalize_release_date fromisoformat (trk_album track) of
        Inl e \<Rightarrow> Inl e
      | Inr d \<Rightarrow>
          Inr \<lparr>sl_name = trk_name track,
               sl_artists = map artist_name (trk_artists track),
               sl_track_number = trk_track_number track,
               sl_album_name = alb_name (trk_album track),
               sl_album_image_url = select_album_image_url (alb_images (trk_album track)),
               sl_release_date = d\<rparr>)"

section \<open>Playlists and their paged iteration\<close>

text \<open>
  The catalog client \<^verbatim>\<open>spotipy.Spotify\<close> is external: \<open>sp_playlist\<close> is
  \<^verbatim>\<open>sp.playlist(playlist_id, fields=["name"])["name"]\<close>, and \<open>sp_playlist_tracks\<close> is
  \<^verbatim>\<open>sp.playlist_tracks(playlist_id=..., limit=..., offset=...)\<close>, which returns a page
  (a dictionary with the key \<^verbatim>\<open>items\<close>) or \<^verbatim>\<open>None\<close>.
\<close>

record playlist_item =
  item_track :: raw_track

record page =
  items :: "playlist_item list"

record spotify =
  sp_playlist :: "string \<Rightarrow> string"
  sp_playlist_tracks :: "string \<Rightarrow> nat \<Rightarrow> nat \<Rightarrow> page option"

text \<open>One call of \<^verbatim>\<open>playlist_tracks\<close>, as it is logged by the model.\<close>

record request =
  req_playlist_id :: string
  req_limit :: nat
  req_offset :: nat

subsection \<open>\<^verbatim>\<open>UnspotifyPlaylist\<close> (src/unspotify.py)\<close>

text \<open>The field \<^verbatim>\<open>_sp\<close> never changes; the client is passed to each operation.\<close>

record UnspotifyPlaylist =
  pl_name :: string
  pl_playlist_id :: string
  pl_current_pos :: nat
  pl_current_tracks :: "playlist_item list"

definition UnspotifyPlaylist_init :: "spotify \<Rightarrow> string \<Rightarrow> UnspotifyPlaylist" where
  "UnspotifyPlaylist_init sp playlist_id =
     \<lparr>pl_name = sp_playlist sp playlist_id,
      pl_playlist_id = playlist_id,
      pl_current_pos = 0,
      pl_current_tracks = []\<rparr>"

text \<open>
  \<^verbatim>\<open>playlist_url.split("/")[-1].split("&")[0]\<close>; \<open>split_chr\<close> never returns the empty
  list, so \<open>last\<close> and \<open>hd\<close> are the Python indexings.
\<close>

definition UnspotifyPlaylist_url_id :: "string \<Rightarrow> string" where
  "UnspotifyPlaylist_url_id playlist_url =
     hd (split_chr CHR ''&'' (last (split_chr CHR ''/'' playlist_url)))"

definition UnspotifyPlaylist_from_url :: "spotify \<Rightarrow> string \<Rightarrow> UnspotifyPlaylist" where
  "UnspotifyPlaylist_from_url sp playlist_url =
     UnspotifyPlaylist_init sp (UnspotifyPlaylist_url_id playlist_url)"

text \<open>
  \<^verbatim>\<open>UnspotifyPlaylist.__next__\<close>. The result is the list of page requests made, the
  value returned or the exception raised, and the object afterwards. A failed
  \<^verbatim>\<open>assert\<close> leaves the object as it was; \<^verbatim>\<open>StopIteration\<close> and an exception of
  the normalizer are raised after the position has been advanced.
\<close>

definition UnspotifyPlaylist_yield ::
  "(string \<Rightarrow> date option) \<Rightarrow> request list \<Rightarrow> UnspotifyPlaylist \<Rightarrow>
   request list \<times> (error + UnspotifyTrackInfo) \<times> UnspotifyPlaylist" where
  "UnspotifyPlaylist_yield fromisoformat reqs self =
     (let self' = self\<lparr>pl_current_pos := pl_current_pos self + 1\<rparr>
      in if pl_current_pos self' mod 100 \<ge> length (pl_current_tracks self')
         then (reqs, Inl StopIteration, self')
         else (reqs,
               UnspotifyTrackInfo_init fromisoformat
                 (item_track (pl_current_tracks self' ! (pl_current_pos self' mod 100))),
               self'))"

definition UnspotifyPlaylist_next ::
  "(string \<Rightarrow> date option) \<Rightarrow> spotify \<Rightarrow> UnspotifyPlaylist \<Rightarrow>
   request list \<times> (error + UnspotifyTrackInfo) \<times> UnspotifyPlaylist" where
  "UnspotifyPlaylist_next fromisoformat sp self =
     (if pl_current_pos self mod 100 = 0
      then (let req = \<lparr>req_playlist_id = pl_playlist_id self,
                        req_limit = 100,
                        req_offset = 100 * (pl_current_pos self div 100)\<rparr>
            in case sp_playlist_tracks sp (req_playlist_id req) (req_limit req) (req_offset req) of
                 None \<Rightarrow> ([req], Inl AssertionError, self)
               | Some tracks \<Rightarrow>
                   UnspotifyPlaylist_yield fromisoformat [req]
                     (self\<lparr>pl_current_tracks := items tracks\<rparr>))
      else UnspotifyPlaylist_yield fromisoformat [] self)"

subsection \<open>\<^verbatim>\<open>_SpotifyPlaylistIterator\<close> and \<^verbatim>\<open>SpotifyPlaylist\<close> (src/src/spotify.py)\<close>

record SpotifyPlaylistIterator =
  it_playlist_id :: string
  it_position :: nat
  it_current_tracks :: "playlist_item list"

definition SpotifyPlaylistIterator_init :: "string \<Rightarrow> SpotifyPlaylistIterator" where
  "SpotifyPlaylistIterator_init playlist_id =
     \<lparr>it_playlist_id = playlist_id, it_position = 0, it_current_tracks = []\<rparr>"

definition SpotifyPlaylistIterator_yield ::
  "(string \<Rightarrow> date option) \<Rightarrow> request list \<Rightarrow> SpotifyPlaylistIterator \<Rightarrow>
   request list \<times> (error + SpotlessTrackInfo) \<times> SpotifyPlaylistIterator" where
  "SpotifyPlaylistIterator_yield fromisoformat reqs self =
     (let self' = self\<lparr>it_position := it_position self + 1\<rparr>
      in if it_position self' mod 100 \<ge> length (it_current_tracks self')
         then (reqs, Inl StopIteration, self')
         else (reqs,
               construct_track fromisoformat
                 (item_track (it_current_tracks self' ! (it_position self' mod 100))),
               self'))"

definition SpotifyPlaylistIterator_next ::
  "(string \<Rightarrow> date option) \<Rightarrow> spotify \<Rightarrow> SpotifyPlaylistIterator \<Rightarrow>
   request list \<times> (error + SpotlessTrackInfo) \<times> SpotifyPlaylistIterator" where
  "SpotifyPlaylistIterator_next fromisoformat sp self =
     (if it_position self mod 100 = 0
      then (let req = \<lparr>req_playlist_id = it_playlist_id self,
                        req_limit = 100,
                        req_offset = 100 * (it_position self div 100)\<rparr>
            in case sp_playlist_tracks sp (req_playlist_id req) (req_limit req) (req_offset req) of
                 None \<Rightarrow> ([req], Inl AssertionError, self)
               | Some tracks \<Rightarrow>
                   SpotifyPlaylistIterator_yield fromisoformat [req]
                     (self\<lparr>it_current_tracks := items tracks\<rparr>))
      else SpotifyPlaylistIterator_yield fromisoformat [] self)"

text \<open>
  \<^verbatim>\<open>SpotifyPlaylist\<close> builds its own client; here the client is given.
  \<^verbatim>\<open>from_url\<close> is \<^verbatim>\<open>cls(playlist_url.split("/")[-1].split("?")[0])\<close>.
\<close>

record SpotifyPlaylist =
  spl_name :: string
  spl_playlist_id :: string

definition SpotifyPlaylist_init :: "spotify \<Rightarrow> string \<Rightarrow> SpotifyPlaylist" where
  "SpotifyPlaylist_init sp playlist_id =
     \<lparr>spl_name = sp_playlist sp playlist_id, spl_playlist_id = playlist_id\<rparr>"

definition SpotifyPlaylist_url_id :: "string \<Rightarrow> string" where
  "SpotifyPlaylist_url_id playlist_url =
     hd (split_chr CHR ''?'' (last (split_chr CHR ''/'' playlist_url)))"

definition SpotifyPlaylist_from_url :: "spotify \<Rightarrow> string \<Rightarrow> SpotifyPlaylist" where
  "SpotifyPlaylist_from_url sp playlist_url =
     SpotifyPlaylist_init sp (SpotifyPlaylist_url_id playlist_url)"

subsection \<open>Iterating to exhaustion\<close>

text \<open>
  \<^verbatim>\<open>list(it)\<close> calls \<^verbatim>\<open>__next__\<close> until it raises: \<^verbatim>\<open>StopIteration\<close> ends the
  list, any other exception is passed on. Nothing bounds the number of calls (the
  service may return full pages for ever), so the model counts them down: \<open>None\<close>
  says that the given number of calls did not reach the end.
\<close>

fun py_list ::
  "nat \<Rightarrow> ('s \<Rightarrow> request list \<times> (error + 'a) \<times> 's) \<Rightarrow> 's \<Rightarrow>
   (request list \<times> (error + 'a list) \<times> 's) option" where
  "py_list 0 nxt s = None"
| "py_list (Suc n) nxt s =
     (case nxt s of
        (reqs, Inl e, s') \<Rightarrow>
          Some (reqs, (if e = StopIteration then Inr [] else Inl e), s')
      | (reqs, Inr x, s') \<Rightarrow>
          (case py_list n nxt s' of
             None \<Rightarrow> None
           | Some (reqs', r, s'') \<Rightarrow> Some (reqs @ reqs', map_sum id (Cons x) r, s'')))"

definition SpotifyPlaylist_fetch_tracks ::
  "nat \<Rightarrow> (string \<Rightarrow> date option) \<Rightarrow> spotify \<Rightarrow> SpotifyPlaylist \<Rightarrow>
   (request list \<times> (error + SpotlessTrackInfo list) \<times> SpotifyPlaylistIterator) option" where
  "SpotifyPlaylist_fetch_tracks n fromisoformat sp self =
     py_list n (SpotifyPlaylistIterator_next fromisoformat sp)
       (SpotifyPlaylistIterator_init (spl_playlist_id self))"

subsection \<open>The shape shared by both iterators\<close>

text \<open>
  The two \<^verbatim>\<open>__next__\<close> methods are the same program on the position and the current
  page, up to the normalizer they call. \<open>paged_next\<close> is that program on the pair of
  both; each method is shown below to be an instance of it.
\<close>

type_synonym cursor = "nat \<times> playlist_item list"

definition paged_yield ::
  "(raw_track \<Rightarrow> error + 'a) \<Rightarrow> request list \<Rightarrow> cursor \<Rightarrow> request list \<times> (error + 'a) \<times> cursor" where
  "paged_yield construct reqs c =
     (if (fst c + 1) mod 100 \<ge> length (snd c)
      then (reqs, Inl StopIteration, (fst c + 1, snd c))
      else (reqs, construct (item_track (snd c ! ((fst c + 1) mod 100))), (fst c + 1, snd c)))"

definition paged_next ::
  "(raw_track \<Rightarrow> error + 'a) \<Rightarrow> spotify \<Rightarrow> string \<Rightarrow> cursor \<Rightarrow>
   request list \<times> (error + 'a) \<times> cursor" where
  "paged_next construct sp playlist_id c =
     (if fst c mod 100 = 0
      then (let req = \<lparr>req_playlist_id = playlist_id, req_limit = 100,
                        req_offset = 100 * (fst c div 100)\<rparr>
            in case sp_playlist_tracks sp playlist_id 100 (100 * (fst c div 100)) of
                 None \<Rightarrow> ([req], Inl AssertionError, c)
               | Some tracks \<Rightarrow> paged_yield construct [req] (fst c, items tracks))
      else paged_yield construct [] c)"

text \<open>Putting requests and elements in front of the result of a later part of the iteration.\<close>

definition prepend ::
  "request list \<Rightarrow> 'a list \<Rightarrow> (request list \<times> (error + 'a list) \<times> 's) option \<Rightarrow>
   (request list \<times> (error + 'a list) \<times> 's) option" where
  "prepend reqs xs res =
     (case res of
        None \<Rightarrow> None
      | Some (reqs', r, s) \<Rightarrow>
          Some (reqs @ reqs', (case r of Inl e \<Rightarrow> Inl e | Inr ys \<Rightarrow> Inr (xs @ ys)), s))"

text \<open>
  The order in which the items of a playlist are reached: of a full page the items 1 to
  99 and then the item 0, of the last page (fewer than 100 items) the items from 1 on.
\<close>

function yielded :: "'a list \<Rightarrow> 'a list" where
  "yielded ts =
     (if length ts < 100 then tl ts
      else tl (take 100 ts) @ [hd ts] @ yielded (drop 100 ts))"
  by pat_completeness auto
termination
  by (relation "measure length") auto

declare yielded.simps [simp del]

subsection \<open>A catalog service\<close>

text \<open>
  A catalog service that holds one playlist: a page request returns the \<open>limit\<close> raw
  items that start at \<open>offset\<close> (fewer at the end, none beyond it).
\<close>

definition catalog_service :: "string \<Rightarrow> raw_track list \<Rightarrow> spotify" where
  "catalog_service nm tracks =
     \<lparr>sp_playlist = (\<lambda>playlist_id. nm),
      sp_playlist_tracks = (\<lambda>playlist_id limit offset.
         Some \<lparr>items = map (\<lambda>t. \<lparr>item_track = t\<rparr>) (take limit (drop offset tracks))\<rparr>)\<rparr>"

section \<open>The tag writer\<close>

subsection \<open>Paths\<close>

text \<open>
  \<^verbatim>\<open>pathlib.Path\<close> on a POSIX system, as of Python 3.12: a path is its root
  (\<^verbatim>\<open>""\<close>, \<^verbatim>\<open>"/"\<close> or \<^verbatim>\<open>"//"\<close>) and its parts, the segments between slashes that
  are neither empty nor \<^verbatim>\<open>"."\<close>.
\<close>

record path =
  path_root :: string
  path_tail :: "string list"

definition Path :: "string \<Rightarrow> path" where
  "Path s =
     (let root = (if take 1 s \<noteq> ''/'' then []
                  else if take 1 (drop 1 s) \<noteq> ''/'' \<or> take 1 (drop 2 s) = ''/'' then ''/''
                  else ''//'')
      in \<lparr>path_root = root,
          path_tail = filter (\<lambda>x. x \<noteq> [] \<and> x \<noteq> ''.'') (split_chr CHR ''/'' (drop (length root) s))\<rparr>)"

text \<open>\<^verbatim>\<open>sep.join(parts)\<close> with the separator \<^verbatim>\<open>"/"\<close>.\<close>

fun join_parts :: "string list \<Rightarrow> string" where
  "join_parts [] = []"
| "join_parts [x] = x"
| "join_parts (x # y # ys) = x @ ''/'' @ join_parts (y # ys)"

text \<open>\<^verbatim>\<open>str(p)\<close>, which is also what \<^verbatim>\<open>os.rename\<close> receives for a path object.\<close>

definition path_str :: "path \<Rightarrow> string" where
  "path_str p =
     (let s = path_root p @ join_parts (path_tail p) in if s = [] then ''.'' else s)"

definition path_name :: "path \<Rightarrow> string" where
  "path_name p = (if path_tail p = [] then [] else last (path_tail p))"

text \<open>
  \<^verbatim>\<open>name.rfind('.')\<close> as the number of characters before the last dot, when there is
  one. The suffix starts at the last dot, unless that dot is the first or the last
  character of the name.
\<close>

definition rfind_dot :: "string \<Rightarrow> nat option" where
  "rfind_dot nm =
     (if CHR ''.'' \<in> set nm
      then Some (length nm - 1 - length (takeWhile (\<lambda>c. c \<noteq> CHR ''.'') (rev nm)))
      else None)"

definition path_suffix :: "path \<Rightarrow> string" where
  "path_suffix p =
     (case rfind_dot (path_name p) of
        None \<Rightarrow> []
      | Some i \<Rightarrow> if 0 < i \<and> i < length (path_name p) - 1 then drop i (path_name p) else [])"

definition path_stem :: "path \<Rightarrow> string" where
  "path_stem p =
     (case rfind_dot (path_name p) of
        None \<Rightarrow> path_name p
      | Some i \<Rightarrow> if 0 < i \<and> i < length (path_name p) - 1 then take i (path_name p)
                  else path_name p)"

definition path_with_name :: "path \<Rightarrow> string \<Rightarrow> error + path" where
  "path_with_name p nm =
     (if path_name p = [] then Inl (ValueError (EmptyName (path_str p)))
      else if nm = [] \<or> CHR ''/'' \<in> set nm \<or> nm = ''.'' then Inl (ValueError (InvalidName nm))
      else Inr (p\<lparr>path_tail := butlast (path_tail p) @ [nm]\<rparr>))"

definition path_with_stem :: "path \<Rightarrow> string \<Rightarrow> error + path" where
  "path_with_stem p stem = path_with_name p (stem @ path_suffix p)"


subsection \<open>\<^verbatim>\<open>UnspotifyYTDownloader._set_track_metadata\<close>\<close>

text \<open>
  The tag frames of \<^verbatim>\<open>mutagen\<close>: a text frame has an encoding and a text, the picture
  frame a MIME type, a picture type, a description and the image bytes.
\<close>

datatype frame =
    TOFN nat string
  | TIT2 nat string
  | TPE2 nat string
  | TRCK nat string
  | TALB nat string
  | TORY nat string
  | APIC string nat string "nat list"

text \<open>What the tag writer does to the world, in order.\<close>

datatype effect =
    Add frame
  | Save
  | Rename string string
  | Print string

text \<open>
  The world outside: opening the tags of a file, fetching the cover image, saving the
  tags and renaming a file either succeed or raise.
\<close>

record tag_env =
  id3_open :: "string \<Rightarrow> error option"
  url_read :: "string \<Rightarrow> error + nat list"
  id3_save :: "string \<Rightarrow> error option"
  os_rename :: "string \<Rightarrow> string \<Rightarrow> error option"

definition text_frames :: "string \<Rightarrow> UnspotifyTrackInfo \<Rightarrow> effect list" where
  "text_frames p info =
     [Add (TOFN 3 (path_stem (Path p))),
      Add (TIT2 3 (name info)),
      Add (TPE2 3 (artist info)),
      Add (TRCK 3 (py_str (track_number info))),
      Add (TALB 3 (album_name info))] @
     (case release_date info of
        None \<Rightarrow> []
      | Some d \<Rightarrow> [Add (TORY 3 (py_str (year d)))])"

definition finished_saving :: "string \<Rightarrow> string" where
  "finished_saving nm = [CHR 0x09] @ ''Finished saving '' @ [CHR 0xAB] @ nm @ [CHR 0xBB] @ ''.''"

text \<open>
  The result is the effects that took place and the exception that ended the call, if
  any: nothing is rolled back. Reading \<^verbatim>\<open>info.album_image_url\<close> raises
  \<open>AttributeError\<close> when the attribute was never assigned.
\<close>

definition set_track_metadata ::
  "tag_env \<Rightarrow> string \<Rightarrow> UnspotifyTrackInfo \<Rightarrow> effect list \<times> error option" where
  "set_track_metadata env p info =
     (case id3_open env p of
        Some e \<Rightarrow> ([], Some e)
      | None \<Rightarrow>
          (case album_image_url info of
             None \<Rightarrow> (text_frames p info, Some (AttributeError ''album_image_url''))
           | Some u \<Rightarrow>
               (case url_read env u of
                  Inl e \<Rightarrow> (text_frames p info, Some e)
                | Inr data \<Rightarrow>
                    (let added = text_frames p info @ [Add (APIC ''image/jpeg'' 3 ''Cover'' data)]
                     in case id3_save env p of
                          Some e \<Rightarrow> (added, Some e)
                        | None \<Rightarrow>
                            (case path_with_stem (Path p) (artist info @ '' - '' @ name info) of
                               Inl e \<Rightarrow> (added @ [Save], Some e)
                             | Inr dst \<Rightarrow>
                                 (case os_rename env p (path_str dst) of
                                    Some e \<Rightarrow> (added @ [Save], Some e)
                                  | None \<Rightarrow>
                                      (added @ [Save, Rename p (path_str dst),
                                                Print (finished_saving (name info))],
                                       None)))))))"

section \<open>Example inputs\<close>

text \<open>Concrete inputs at which the properties below are evaluated.\<close>

definition no_isoformat :: "string \<Rightarrow> date option" where
  "no_isoformat s = None"


definition example_track :: "string option \<Rightarrow> string \<Rightarrow> raw_image list \<Rightarrow> raw_track" where
  "example_track precision date_string images =
     \<lparr>trk_name = ''Song'',
      trk_artists = [\<lparr>artist_name = ''Artist''\<rparr>],
      trk_track_number = 7,
      trk_disc_number = 1,
      trk_album = \<lparr>alb_name = ''Album'',
                   alb_images = images,
                   alb_release_date = date_string,
                   alb_release_date_precision = precision\<rparr>\<rparr>"

definition example_url :: string where
  "example_url = ''https://open.example.com/playlist/abc123?si=xyz''"

text \<open>A catalog service whose page requests return \<^verbatim>\<open>None\<close>.\<close>

definition failing_service :: spotify where
  "failing_service =
     \<lparr>sp_playlist = (\<lambda>playlist_id. ''Playlist''),
      sp_playlist_tracks = (\<lambda>playlist_id limit offset. None)\<rparr>"

text \<open>A world in which every step of the tag writer succeeds.\<close>

definition example_tag_env :: tag_env where
  "example_tag_env =
     \<lparr>id3_open = (\<lambda>p. None),
      url_read = (\<lambda>u. Inr [255, 216, 255]),
      id3_save = (\<lambda>p. None),
      os_rename = (\<lambda>src dst. None)\<rparr>"




text \<open>A playlist of two tracks that differ in their release date.\<close>

definition example_pair :: "raw_track list" where
  "example_pair = [example_track None [] [], example_track (Some ''year'') ''2024'' []]"

section \<open>Properties of the library model\<close>

lemma split_chr_nonempty: "split_chr c s \<noteq> []"
  by (induction s) (auto split: list.splits)

lemma py_int_12: "py_int ''12'' = Inr 12"
  by (simp add: py_int_def strip_def is_space_def is_digit_def digit_val_def decimal_value_def)

lemma py_int_03: "py_int ''03'' = Inr 3"
  by (simp add: py_int_def strip_def is_space_def is_digit_def digit_val_def decimal_value_def)

lemma py_int_2024: "py_int ''2024'' = Inr 2024"
  by (simp add: py_int_def strip_def is_space_def is_digit_def digit_val_def decimal_value_def)

section \<open>Construction from a playlist URL\<close>

text \<open>
  C3. From the URL \<^verbatim>\<open>https://open.example.com/playlist/abc123?si=xyz\<close> the identifier
  should be \<^verbatim>\<open>abc123\<close> on each construction path. \<^verbatim>\<open>SpotifyPlaylist.from_url\<close> cuts
  the last path segment at the first \<^verbatim>\<open>?\<close> and obtains it;
  \<^verbatim>\<open>UnspotifyPlaylist.from_url\<close> cuts at the first \<^verbatim>\<open>&\<close> and keeps the query string
  in the identifier.
\<close>

theorem from_url_keeps_query_string:
  "pl_playlist_id (UnspotifyPlaylist_from_url sp example_url) = ''abc123?si=xyz'' \<and>
   spl_playlist_id (SpotifyPlaylist_from_url sp example_url) = ''abc123''"
  by (simp add: UnspotifyPlaylist_from_url_def UnspotifyPlaylist_init_def
      UnspotifyPlaylist_url_id_def SpotifyPlaylist_from_url_def SpotifyPlaylist_init_def
      SpotifyPlaylist_url_id_def example_url_def)

section \<open>Release dates of month and year precision\<close>

lemma month_release_date_march: 
  "month_release_date ''2024-03'' = Inr \<lparr>year = 2024, month = 4, day = 1\<rparr>"
  by (simp add: month_release_date_def py_int_03 py_int_2024 py_date_def days_in_month_def)

lemma year_release_date_2024:
  "year_release_date ''2024'' = Inr \<lparr>year = 2024, month = 1, day = 1\<rparr>"
  by (simp add: year_release_date_def py_int_2024 py_date_def days_in_month_def)

lemma month_release_date_december:
  "month_release_date ''2024-12'' = Inl (ValueError (MonthOutOfRange 13))"
  by (simp add: month_release_date_def py_int_12 py_int_2024 py_date_def)

text \<open>
  C4. With precision \<^verbatim>\<open>month\<close> the release date should be the first day of the month
  after the given one. For \<^verbatim>\<open>2024-03\<close> both normalizers give 2024-04-01, and for
  precision \<^verbatim>\<open>year\<close> and \<^verbatim>\<open>2024\<close> they give 2024-01-01; for \<^verbatim>\<open>2024-12\<close> they
  ask for the month 13 and raise \<open>ValueError\<close>, so no date is produced for December.
\<close>

theorem month_precision_examples:
  "map_sum id release_date
     (UnspotifyTrackInfo_init f (example_track (Some ''month'') ''2024-12'' []))
     = Inl (ValueError (MonthOutOfRange 13)) \<and>
   map_sum id sl_release_date
     (construct_track f (example_track (Some ''month'') ''2024-12'' []))
     = Inl (ValueError (MonthOutOfRange 13)) \<and>
   map_sum id release_date
     (UnspotifyTrackInfo_init f (example_track (Some ''month'') ''2024-03'' []))
     = Inr (Some \<lparr>year = 2024, month = 4, day = 1\<rparr>) \<and>
   map_sum id sl_release_date
     (construct_track f (example_track (Some ''month'') ''2024-03'' []))
     = Inr (Some \<lparr>year = 2024, month = 4, day = 1\<rparr>) \<and>
   map_sum id release_date
     (UnspotifyTrackInfo_init f (example_track (Some ''year'') ''2024'' []))
     = Inr (Some \<lparr>year = 2024, month = 1, day = 1\<rparr>) \<and>
   map_sum id sl_release_date
     (construct_track f (example_track (Some ''year'') ''2024'' []))
     = Inr (Some \<lparr>year = 2024, month = 1, day = 1\<rparr>)"
  by (simp add: UnspotifyTrackInfo_init_def construct_track_def normalize_release_date_def
      example_track_def month_release_date_december month_release_date_march
      year_release_date_2024)

section \<open>Cover image selection\<close>

lemma scan_images_snoc:
  "scan_images (xs @ [x]) st =
     (if image_height x > fst (scan_images xs st)
      then (image_height x, Some (image_url x))
      else scan_images xs st)"
  by (induction xs st rule: scan_images.induct) auto

lemma scan_images_invariant:
  "scan_images imgs (m0, u0) = (m, u) \<Longrightarrow>
     (\<forall>j<length imgs. image_height (imgs ! j) \<le> m) \<and> m0 \<le> m \<and>
     ((m = m0 \<and> u = u0) \<or>
      (\<exists>i<length imgs. image_height (imgs ! i) = m \<and> u = Some (image_url (imgs ! i)) \<and>
          m0 < m \<and> (\<forall>j<i. image_height (imgs ! j) < m)))"
proof (induction imgs arbitrary: m u rule: rev_induct)
  case Nil
  then show ?case by simp
next
  case (snoc x xs)
  obtain m1 u1 where prev: "scan_images xs (m0, u0) = (m1, u1)"
    by (cases "scan_images xs (m0, u0)")
  note IH = snoc.IH [OF prev]
  show ?case
  proof (cases "image_height x > m1")
    case True
    with snoc.prems prev have mu: "m = image_height x" "u = Some (image_url x)"
      by (simp_all add: scan_images_snoc)
    have below: "\<forall>j<length xs. image_height (xs ! j) < m"
      using IH True mu by fastforce
    have "\<forall>j<length (xs @ [x]). image_height ((xs @ [x]) ! j) \<le> m"
      using below mu by (auto simp: nth_append less_Suc_eq)
    moreover have "m0 \<le> m" "m0 < m" using IH True mu by auto
    moreover have "length xs < length (xs @ [x]) \<and> image_height ((xs @ [x]) ! length xs) = m \<and>
        u = Some (image_url ((xs @ [x]) ! length xs)) \<and>
        (\<forall>j<length xs. image_height ((xs @ [x]) ! j) < m)"
      using below mu by (auto simp: nth_append)
    ultimately show ?thesis by blast
  next
    case False
    with snoc.prems prev have mu: "m = m1" "u = u1"
      by (simp_all add: scan_images_snoc)
    have all: "\<forall>j<length (xs @ [x]). image_height ((xs @ [x]) ! j) \<le> m"
      using IH False mu by (auto simp: nth_append less_Suc_eq)
    from IH have "(m1 = m0 \<and> u1 = u0) \<or>
      (\<exists>i<length xs. image_height (xs ! i) = m1 \<and> u1 = Some (image_url (xs ! i)) \<and>
          m0 < m1 \<and> (\<forall>j<i. image_height (xs ! j) < m1))" by blast
    then show ?thesis
    proof
      assume "m1 = m0 \<and> u1 = u0"
      with all mu show ?thesis by auto
    next
      assume "\<exists>i<length xs. image_height (xs ! i) = m1 \<and> u1 = Some (image_url (xs ! i)) \<and>
          m0 < m1 \<and> (\<forall>j<i. image_height (xs ! j) < m1)"
      then obtain i where i: "i < length xs" "image_height (xs ! i) = m1"
        "u1 = Some (image_url (xs ! i))" "m0 < m1" "\<forall>j<i. image_height (xs ! j) < m1"
        by blast
      have "i < length (xs @ [x]) \<and> image_height ((xs @ [x]) ! i) = m \<and>
         u = Some (image_url ((xs @ [x]) ! i)) \<and> m0 < m \<and>
         (\<forall>j<i. image_height ((xs @ [x]) ! j) < m)"
        using i mu by (auto simp: nth_append)
      with all i mu show ?thesis by (metis less_imp_le)
    qed
  qed
qed

lemma select_Some_first_largest:
  assumes "select_album_image_url imgs = Some u"
  shows "\<exists>i<length imgs. u = image_url (imgs ! i) \<and> 0 < image_height (imgs ! i) \<and>
           (\<forall>j<length imgs. image_height (imgs ! j) \<le> image_height (imgs ! i)) \<and>
           (\<forall>j<i. image_height (imgs ! j) < image_height (imgs ! i))"
proof -
  obtain m u' where sc: "scan_images imgs (0, None) = (m, u')"
    by (cases "scan_images imgs (0, None)")
  with assms have u': "u' = Some u" by (simp add: select_album_image_url_def)
  from scan_images_invariant [OF sc] u' show ?thesis by auto
qed







section \<open>Unsupported and absent precision\<close>

lemma normalize_release_date_unsupported:
  assumes "alb_release_date_precision alb = Some p"
    and "p \<noteq> ''day''" and "p \<noteq> ''month''" and "p \<noteq> ''year''"
  shows "normalize_release_date f alb =
           Inl (ValueError (Message (''Unsupported precision '' @ [CHR 0xAB] @ p @ [CHR 0xBB])))"
  using assms by (simp add: normalize_release_date_def unsupported_precision_def)

lemma normalize_release_date_absent:
  "alb_release_date_precision alb = None \<Longrightarrow> normalize_release_date f alb = Inr None"
  by (simp add: normalize_release_date_def)

text \<open>
  C6. A precision tag that is a string other than \<^verbatim>\<open>day\<close>, \<^verbatim>\<open>month\<close> and
  \<^verbatim>\<open>year\<close> makes the normalizer raise a \<open>ValueError\<close> whose message is
  \<^verbatim>\<open>Unsupported precision\<close> followed by the tag between guillemets; an absent tag
  makes it succeed with no release date. \<^verbatim>\<open>UnspotifyTrackInfo.__init__\<close> reads the
  first artist before it looks at the precision, so for it the record has to have an
  artist, as every record of the catalog has.
\<close>

theorem unsupported_precision_raises_absent_is_none:
  "(alb_release_date_precision (trk_album t) = Some p \<and>
    p \<noteq> ''day'' \<and> p \<noteq> ''month'' \<and> p \<noteq> ''year'' \<longrightarrow>
      construct_track f t =
        Inl (ValueError (Message (''Unsupported precision '' @ [CHR 0xAB] @ p @ [CHR 0xBB]))) \<and>
      (trk_artists t \<noteq> [] \<longrightarrow>
         UnspotifyTrackInfo_init f t =
           Inl (ValueError (Message (''Unsupported precision '' @ [CHR 0xAB] @ p @ [CHR 0xBB]))))) \<and>
   (alb_release_date_precision (trk_album t) = None \<longrightarrow>
      (\<exists>info. construct_track f t = Inr info \<and> sl_release_date info = None) \<and>
      (trk_artists t \<noteq> [] \<longrightarrow>
         (\<exists>info. UnspotifyTrackInfo_init f t = Inr info \<and> release_date info = None)))"
proof (intro conjI impI)
  assume a: "alb_release_date_precision (trk_album t) = Some p \<and>
    p \<noteq> ''day'' \<and> p \<noteq> ''month'' \<and> p \<noteq> ''year''"
  then have n: "normalize_release_date f (trk_album t) =
      Inl (ValueError (Message (''Unsupported precision '' @ [CHR 0xAB] @ p @ [CHR 0xBB])))"
    by (simp add: normalize_release_date_unsupported)
  show "construct_track f t =
        Inl (ValueError (Message (''Unsupported precision '' @ [CHR 0xAB] @ p @ [CHR 0xBB])))"
    by (simp add: construct_track_def n)
  assume "trk_artists t \<noteq> []"
  then show "UnspotifyTrackInfo_init f t =
           Inl (ValueError (Message (''Unsupported precision '' @ [CHR 0xAB] @ p @ [CHR 0xBB])))"
    by (simp add: UnspotifyTrackInfo_init_def n split: list.splits)
next
  assume a: "alb_release_date_precision (trk_album t) = None"
  then have n: "normalize_release_date f (trk_album t) = Inr None"
    by (rule normalize_release_date_absent)
  show "\<exists>info. construct_track f t = Inr info \<and> sl_release_date info = None"
    by (simp add: construct_track_def n)
  assume "trk_artists t \<noteq> []"
  then show "\<exists>info. UnspotifyTrackInfo_init f t = Inr info \<and> release_date info = None"
    by (simp add: UnspotifyTrackInfo_init_def n split: list.splits)
qed

theorem unsupported_precision_raises_absent_is_none_witness:
  "construct_track no_isoformat (example_track (Some ''week'') ''2024-W10'' []) =
     Inl (ValueError (Message (''Unsupported precision '' @ [CHR 0xAB] @ ''week'' @ [CHR 0xBB]))) \<and>
   UnspotifyTrackInfo_init no_isoformat (example_track (Some ''week'') ''2024-W10'' []) =
     Inl (ValueError (Message (''Unsupported precision '' @ [CHR 0xAB] @ ''week'' @ [CHR 0xBB]))) \<and>
   map_sum id sl_release_date (construct_track no_isoformat (example_track None [] [])) = Inr None \<and>
   map_sum id release_date (UnspotifyTrackInfo_init no_isoformat (example_track None [] [])) = Inr None"
proof -
  have p: "alb_release_date_precision (trk_album (example_track (Some ''week'') ''2024-W10'' []))
        = Some ''week'' \<and> ''week'' \<noteq> ''day'' \<and> ''week'' \<noteq> ''month'' \<and> ''week'' \<noteq> ''year''"
    by (simp add: example_track_def)
  have a: "trk_artists (example_track (Some ''week'') ''2024-W10'' []) \<noteq> []"
    by (simp add: example_track_def)
  have q: "alb_release_date_precision (trk_album (example_track None [] [])) = None"
    by (simp add: example_track_def)
  have b: "trk_artists (example_track None [] []) \<noteq> []"
    by (simp add: example_track_def)
  from unsupported_precision_raises_absent_is_none
         [of "example_track (Some ''week'') ''2024-W10'' []" "''week''" no_isoformat] p a
  have 1: "construct_track no_isoformat (example_track (Some ''week'') ''2024-W10'' []) =
     Inl (ValueError (Message (''Unsupported precision '' @ [CHR 0xAB] @ ''week'' @ [CHR 0xBB])))"
    and 2: "UnspotifyTrackInfo_init no_isoformat (example_track (Some ''week'') ''2024-W10'' []) =
     Inl (ValueError (Message (''Unsupported precision '' @ [CHR 0xAB] @ ''week'' @ [CHR 0xBB])))"
    by blast+
  from unsupported_precision_raises_absent_is_none
         [of "example_track None [] []" "''week''" no_isoformat] q b
  obtain i1 i2 where
    "construct_track no_isoformat (example_track None [] []) = Inr i1" "sl_release_date i1 = None"
    "UnspotifyTrackInfo_init no_isoformat (example_track None [] []) = Inr i2" "release_date i2 = None"
    by blast
  with 1 2 show ?thesis by simp
qed

section \<open>A page request that returns nothing\<close>

lemma py_int_not_assertion: "py_int s \<noteq> Inl AssertionError"
  by (simp add: py_int_def Let_def split: option.splits)

lemma py_date_not_assertion: "py_date y m d \<noteq> Inl AssertionError"
  by (simp add: py_date_def)

lemma normalize_release_date_not_assertion:
  "normalize_release_date f alb \<noteq> Inl AssertionError"
proof -
  have "month_release_date s \<noteq> Inl AssertionError" for s
    using py_int_not_assertion py_date_not_assertion
    by (auto simp: month_release_date_def Let_def split: sum.splits list.splits)
  moreover have "year_release_date s \<noteq> Inl AssertionError" for s
    using py_int_not_assertion py_date_not_assertion
    by (auto simp: year_release_date_def split: sum.splits)
  moreover have "date_fromisoformat f s \<noteq> Inl AssertionError" for s
    by (simp add: date_fromisoformat_def split: option.splits)
  ultimately show ?thesis
    by (cases "date_fromisoformat f (alb_release_date alb)";
        cases "month_release_date (alb_release_date alb)";
        cases "year_release_date (alb_release_date alb)")
       (auto simp: normalize_release_date_def split: option.splits)
qed

lemma UnspotifyTrackInfo_init_not_assertion:
  "UnspotifyTrackInfo_init f t \<noteq> Inl AssertionError"
  using normalize_release_date_not_assertion [of f "trk_album t"]
  by (auto simp: UnspotifyTrackInfo_init_def split: list.splits sum.splits)

lemma construct_track_not_assertion: "construct_track f t \<noteq> Inl AssertionError"
  using normalize_release_date_not_assertion [of f "trk_album t"]
  by (auto simp: construct_track_def split: sum.splits)

text \<open>
  C8. When the position is at a page boundary and the page request returns
  \<^verbatim>\<open>None\<close>, the next-element operation of either iterator raises
  \<open>AssertionError\<close> and leaves the iterator as it was, and \<^verbatim>\<open>list\<close> passes the
  exception on. When every page request returns a page, the operation never raises
  \<open>AssertionError\<close>.
\<close>

theorem missing_page_fails_assertion:
  "(pl_current_pos self mod 100 = 0 \<and>
    sp_playlist_tracks sp (pl_playlist_id self) 100 (100 * (pl_current_pos self div 100)) = None \<longrightarrow>
      fst (snd (UnspotifyPlaylist_next f sp self)) = Inl AssertionError \<and>
      snd (snd (UnspotifyPlaylist_next f sp self)) = self \<and>
      map_option (fst \<circ> snd) (py_list (Suc n) (UnspotifyPlaylist_next f sp) self)
        = Some (Inl AssertionError)) \<and>
   (it_position it mod 100 = 0 \<and>
    sp_playlist_tracks sp (it_playlist_id it) 100 (100 * (it_position it div 100)) = None \<longrightarrow>
      fst (snd (SpotifyPlaylistIterator_next f sp it)) = Inl AssertionError \<and>
      snd (snd (SpotifyPlaylistIterator_next f sp it)) = it \<and>
      map_option (fst \<circ> snd) (py_list (Suc n) (SpotifyPlaylistIterator_next f sp) it)
        = Some (Inl AssertionError)) \<and>
   ((\<forall>playlist_id limit offset. sp_playlist_tracks sp playlist_id limit offset \<noteq> None) \<longrightarrow>
      fst (snd (UnspotifyPlaylist_next f sp self)) \<noteq> Inl AssertionError \<and>
      fst (snd (SpotifyPlaylistIterator_next f sp it)) \<noteq> Inl AssertionError)"
proof (intro conjI impI)
  assume a: "pl_current_pos self mod 100 = 0 \<and>
    sp_playlist_tracks sp (pl_playlist_id self) 100 (100 * (pl_current_pos self div 100)) = None"
  then have nx: "UnspotifyPlaylist_next f sp self =
      ([\<lparr>req_playlist_id = pl_playlist_id self, req_limit = 100,
         req_offset = 100 * (pl_current_pos self div 100)\<rparr>], Inl AssertionError, self)"
    by (simp add: UnspotifyPlaylist_next_def)
  show "fst (snd (UnspotifyPlaylist_next f sp self)) = Inl AssertionError"
    and "snd (snd (UnspotifyPlaylist_next f sp self)) = self"
    and "map_option (fst \<circ> snd) (py_list (Suc n) (UnspotifyPlaylist_next f sp) self)
        = Some (Inl AssertionError)"
    by (simp_all add: nx)
next
  assume a: "it_position it mod 100 = 0 \<and>
    sp_playlist_tracks sp (it_playlist_id it) 100 (100 * (it_position it div 100)) = None"
  then have nx: "SpotifyPlaylistIterator_next f sp it =
      ([\<lparr>req_playlist_id = it_playlist_id it, req_limit = 100,
         req_offset = 100 * (it_position it div 100)\<rparr>], Inl AssertionError, it)"
    by (simp add: SpotifyPlaylistIterator_next_def)
  show "fst (snd (SpotifyPlaylistIterator_next f sp it)) = Inl AssertionError"
    and "snd (snd (SpotifyPlaylistIterator_next f sp it)) = it"
    and "map_option (fst \<circ> snd) (py_list (Suc n) (SpotifyPlaylistIterator_next f sp) it)
        = Some (Inl AssertionError)"
    by (simp_all add: nx)
next
  assume a: "\<forall>playlist_id limit offset. sp_playlist_tracks sp playlist_id limit offset \<noteq> None"
  from a obtain pg where pg: "sp_playlist_tracks sp (pl_playlist_id self) 100
      (100 * (pl_current_pos self div 100)) = Some pg"
    by (meson option.exhaust)
  show "fst (snd (UnspotifyPlaylist_next f sp self)) \<noteq> Inl AssertionError"
    using UnspotifyTrackInfo_init_not_assertion
    by (simp add: UnspotifyPlaylist_next_def UnspotifyPlaylist_yield_def Let_def pg)
  from a obtain pg' where pg': "sp_playlist_tracks sp (it_playlist_id it) 100
      (100 * (it_position it div 100)) = Some pg'"
    by (meson option.exhaust)
  show "fst (snd (SpotifyPlaylistIterator_next f sp it)) \<noteq> Inl AssertionError"
    using construct_track_not_assertion
    by (simp add: SpotifyPlaylistIterator_next_def SpotifyPlaylistIterator_yield_def Let_def pg')
qed


theorem missing_page_fails_assertion_witness:
  "fst (snd (UnspotifyPlaylist_next no_isoformat failing_service
        (UnspotifyPlaylist_init failing_service ''abc123''))) = Inl AssertionError \<and>
   map_option (fst \<circ> snd) (py_list (Suc 0) (UnspotifyPlaylist_next no_isoformat failing_service)
        (UnspotifyPlaylist_init failing_service ''abc123'')) = Some (Inl AssertionError) \<and>
   fst (snd (SpotifyPlaylistIterator_next no_isoformat failing_service
        (SpotifyPlaylistIterator_init ''abc123''))) = Inl AssertionError \<and>
   fst (snd (UnspotifyPlaylist_next no_isoformat (catalog_service ''Playlist'' [])
        (UnspotifyPlaylist_init (catalog_service ''Playlist'' []) ''abc123''))) \<noteq> Inl AssertionError \<and>
   fst (snd (SpotifyPlaylistIterator_next no_isoformat (catalog_service ''Playlist'' [])
        (SpotifyPlaylistIterator_init ''abc123''))) \<noteq> Inl AssertionError"
proof -
  have 1: "pl_current_pos (UnspotifyPlaylist_init failing_service ''abc123'') mod 100 = 0 \<and>
    sp_playlist_tracks failing_service (pl_playlist_id (UnspotifyPlaylist_init failing_service ''abc123''))
      100 (100 * (pl_current_pos (UnspotifyPlaylist_init failing_service ''abc123'') div 100)) = None"
    by (simp add: UnspotifyPlaylist_init_def failing_service_def)
  have 2: "it_position (SpotifyPlaylistIterator_init ''abc123'') mod 100 = 0 \<and>
    sp_playlist_tracks failing_service (it_playlist_id (SpotifyPlaylistIterator_init ''abc123''))
      100 (100 * (it_position (SpotifyPlaylistIterator_init ''abc123'') div 100)) = None"
    by (simp add: SpotifyPlaylistIterator_init_def failing_service_def)
  have 3: "\<forall>playlist_id limit offset.
      sp_playlist_tracks (catalog_service ''Playlist'' []) playlist_id limit offset \<noteq> None"
    by (simp add: catalog_service_def)
  from missing_page_fails_assertion [of "UnspotifyPlaylist_init failing_service ''abc123''"
      failing_service no_isoformat 0 "SpotifyPlaylistIterator_init ''abc123''"] 1 2
  have a: "fst (snd (UnspotifyPlaylist_next no_isoformat failing_service
        (UnspotifyPlaylist_init failing_service ''abc123''))) = Inl AssertionError"
    "map_option (fst \<circ> snd) (py_list (Suc 0) (UnspotifyPlaylist_next no_isoformat failing_service)
        (UnspotifyPlaylist_init failing_service ''abc123'')) = Some (Inl AssertionError)"
    "fst (snd (SpotifyPlaylistIterator_next no_isoformat failing_service
        (SpotifyPlaylistIterator_init ''abc123''))) = Inl AssertionError"
    by blast+
  from missing_page_fails_assertion [of
      "UnspotifyPlaylist_init (catalog_service ''Playlist'' []) ''abc123''"
      "catalog_service ''Playlist'' []" no_isoformat 0 "SpotifyPlaylistIterator_init ''abc123''"] 3
  have b: "fst (snd (UnspotifyPlaylist_next no_isoformat (catalog_service ''Playlist'' [])
        (UnspotifyPlaylist_init (catalog_service ''Playlist'' []) ''abc123''))) \<noteq> Inl AssertionError"
    "fst (snd (SpotifyPlaylistIterator_next no_isoformat (catalog_service ''Playlist'' [])
        (SpotifyPlaylistIterator_init ''abc123''))) \<noteq> Inl AssertionError"
    by blast+
  from a b show ?thesis by blast
qed

section \<open>Month precision in December\<close>

lemma month_release_date_parts:
  assumes "split_chr CHR ''-'' s = y # m # rest" and "py_int y = Inr yy" and "py_int m = Inr mm"
  shows "month_release_date s = py_date yy (mm + 1) 1"
  using assms by (simp add: month_release_date_def)

lemma month_release_date_success:
  assumes "month_release_date s = Inr d"
  shows "\<exists>y m rest yy mm. split_chr CHR ''-'' s = y # m # rest \<and> py_int y = Inr yy \<and>
           py_int m = Inr mm \<and> 1 \<le> yy \<and> yy \<le> 9999 \<and> 0 \<le> mm \<and> mm \<le> 11 \<and>
           d = \<lparr>year = yy, month = mm + 1, day = 1\<rparr>"
proof -
  obtain y ps where sp: "split_chr CHR ''-'' s = y # ps"
    using split_chr_nonempty [of "CHR ''-''" s] by (cases "split_chr CHR ''-'' s") auto
  from assms sp obtain yy where yy: "py_int y = Inr yy"
    by (cases "py_int y") (auto simp: month_release_date_def)
  from assms sp yy obtain m rest where ps: "ps = m # rest"
    by (cases ps) (auto simp: month_release_date_def)
  from assms sp yy ps obtain mm where mm: "py_int m = Inr mm"
    by (cases "py_int m") (auto simp: month_release_date_def)
  from assms sp yy ps mm have d: "py_date yy (mm + 1) 1 = Inr d"
    by (simp add: month_release_date_def)
  then have "1 \<le> yy \<and> yy \<le> 9999 \<and> 0 \<le> mm \<and> mm \<le> 11 \<and> d = \<lparr>year = yy, month = mm + 1, day = 1\<rparr>"
    by (auto simp: py_date_def split: if_splits)
  with sp ps yy mm show ?thesis by blast
qed

lemma normalize_month:
  "alb_release_date_precision alb = Some ''month'' \<Longrightarrow>
   normalize_release_date f alb = map_sum id Some (month_release_date (alb_release_date alb))"
  by (simp add: normalize_release_date_def)

text \<open>
  C9. With precision \<^verbatim>\<open>month\<close>, a date string whose year parses and whose month
  component is 12 makes both normalizers raise an out-of-range \<open>ValueError\<close>: they ask
  for the month 13 (or the year itself is out of range). Where a normalizer succeeds on
  month precision, the month component is at most 11, so December never succeeds. (The
  component 0 is accepted too, and gives January.)
\<close>

theorem december_raises_out_of_range:
  "(alb_release_date_precision (trk_album t) = Some ''month'' \<and>
    split_chr CHR ''-'' (alb_release_date (trk_album t)) = y # m # rest \<and>
    py_int y = Inr yy \<and> py_int m = Inr 12 \<longrightarrow>
      construct_track f t =
        Inl (ValueError (if yy < 1 \<or> 9999 < yy then YearOutOfRange yy else MonthOutOfRange 13)) \<and>
      (trk_artists t \<noteq> [] \<longrightarrow>
        UnspotifyTrackInfo_init f t =
          Inl (ValueError (if yy < 1 \<or> 9999 < yy then YearOutOfRange yy else MonthOutOfRange 13)))) \<and>
   (alb_release_date_precision (trk_album t) = Some ''month'' \<and>
    (construct_track f t = Inr info' \<or> UnspotifyTrackInfo_init f t = Inr info) \<longrightarrow>
      (\<exists>y m rest mm. split_chr CHR ''-'' (alb_release_date (trk_album t)) = y # m # rest \<and>
          py_int m = Inr mm \<and> 0 \<le> mm \<and> mm \<le> 11))"
proof (intro conjI impI)
  assume a: "alb_release_date_precision (trk_album t) = Some ''month'' \<and>
    split_chr CHR ''-'' (alb_release_date (trk_album t)) = y # m # rest \<and>
    py_int y = Inr yy \<and> py_int m = Inr 12"
  then have "month_release_date (alb_release_date (trk_album t)) = py_date yy 13 1"
    using month_release_date_parts [of "alb_release_date (trk_album t)" y m rest yy 12] by simp
  then have n: "normalize_release_date f (trk_album t) =
      Inl (ValueError (if yy < 1 \<or> 9999 < yy then YearOutOfRange yy else MonthOutOfRange 13))"
    using a by (simp add: normalize_month py_date_def)
  show "construct_track f t =
        Inl (ValueError (if yy < 1 \<or> 9999 < yy then YearOutOfRange yy else MonthOutOfRange 13))"
    by (simp add: construct_track_def n)
  assume "trk_artists t \<noteq> []"
  then show "UnspotifyTrackInfo_init f t =
          Inl (ValueError (if yy < 1 \<or> 9999 < yy then YearOutOfRange yy else MonthOutOfRange 13))"
    by (simp add: UnspotifyTrackInfo_init_def n split: list.splits)
next
  assume a: "alb_release_date_precision (trk_album t) = Some ''month'' \<and>
    (construct_track f t = Inr info' \<or> UnspotifyTrackInfo_init f t = Inr info)"
  then have "\<exists>d. normalize_release_date f (trk_album t) = Inr d"
    by (auto simp: construct_track_def UnspotifyTrackInfo_init_def split: sum.splits list.splits)
  with a obtain d where "month_release_date (alb_release_date (trk_album t)) = Inr d"
    by (cases "month_release_date (alb_release_date (trk_album t))") (auto simp: normalize_month)
  from month_release_date_success [OF this]
  show "\<exists>y m rest mm. split_chr CHR ''-'' (alb_release_date (trk_album t)) = y # m # rest \<and>
          py_int m = Inr mm \<and> 0 \<le> mm \<and> mm \<le> 11"
    by blast
qed


theorem december_raises_out_of_range_witness:
  "construct_track no_isoformat (example_track (Some ''month'') ''2024-12'' []) =
     Inl (ValueError (MonthOutOfRange 13)) \<and>
   UnspotifyTrackInfo_init no_isoformat (example_track (Some ''month'') ''2024-12'' []) =
     Inl (ValueError (MonthOutOfRange 13)) \<and>
   (\<exists>y m rest mm. split_chr CHR ''-'' ''2024-03'' = y # m # rest \<and>
       py_int m = Inr mm \<and> 0 \<le> mm \<and> mm \<le> 11)"
proof -
  have h1: "alb_release_date_precision (trk_album (example_track (Some ''month'') ''2024-12'' []))
      = Some ''month'' \<and>
    split_chr CHR ''-'' (alb_release_date (trk_album (example_track (Some ''month'') ''2024-12'' [])))
      = ''2024'' # ''12'' # [] \<and>
    py_int ''2024'' = Inr 2024 \<and> py_int ''12'' = Inr 12"
    by (simp add: example_track_def py_int_2024 py_int_12)
  have a1: "trk_artists (example_track (Some ''month'') ''2024-12'' []) \<noteq> []"
    by (simp add: example_track_def)
  from december_raises_out_of_range [of "example_track (Some ''month'') ''2024-12'' []"
      "''2024''" "''12''" "[]" 2024 no_isoformat] h1 a1
  have r1: "construct_track no_isoformat (example_track (Some ''month'') ''2024-12'' []) =
     Inl (ValueError (MonthOutOfRange 13))"
    "UnspotifyTrackInfo_init no_isoformat (example_track (Some ''month'') ''2024-12'' []) =
     Inl (ValueError (MonthOutOfRange 13))"
    by simp_all
  obtain info' where ok:
    "construct_track no_isoformat (example_track (Some ''month'') ''2024-03'' []) = Inr info'"
    by (simp add: construct_track_def normalize_release_date_def example_track_def
        month_release_date_march)
  have h2: "alb_release_date_precision (trk_album (example_track (Some ''month'') ''2024-03'' []))
      = Some ''month''"
    "alb_release_date (trk_album (example_track (Some ''month'') ''2024-03'' [])) = ''2024-03''"
    by (simp_all add: example_track_def)
  from december_raises_out_of_range [of "example_track (Some ''month'') ''2024-03'' []"
      _ _ _ _ no_isoformat info'] ok h2
  have r2: "\<exists>y m rest mm. split_chr CHR ''-'' ''2024-03'' = y # m # rest \<and>
       py_int m = Inr mm \<and> 0 \<le> mm \<and> mm \<le> 11"
    by simp
  from r1 r2 show ?thesis by blast
qed

section \<open>No image of positive height\<close>

lemma select_no_positive_height:
  assumes "\<forall>img \<in> set imgs. image_height img \<le> 0"
  shows "select_album_image_url imgs = None"
proof (cases "select_album_image_url imgs")
  case None
  then show ?thesis .
next
  case (Some u)
  from select_Some_first_largest [OF Some] obtain i where
    "i < length imgs" "0 < image_height (imgs ! i)" by blast
  with assms show ?thesis by (metis nth_mem not_less)
qed

text \<open>
  C10. When no image of the album has a positive height (in particular when there is no
  image), neither normalizer produces a cover URL: \<^verbatim>\<open>_construct_track\<close> yields
  \<^verbatim>\<open>None\<close>, and \<^verbatim>\<open>UnspotifyTrackInfo.__init__\<close> leaves \<^verbatim>\<open>album_image_url\<close>
  unassigned, so that the tag writer, which reads it, ends with \<open>AttributeError\<close>.
\<close>

theorem no_positive_height_no_cover_url:
  "(\<forall>img \<in> set (alb_images (trk_album t)). image_height img \<le> 0) \<longrightarrow>
     (UnspotifyTrackInfo_init f t = Inr info \<longrightarrow>
        album_image_url info = None \<and>
        (id3_open env p = None \<longrightarrow>
           snd (set_track_metadata env p info) = Some (AttributeError ''album_image_url''))) \<and>
     (construct_track f t = Inr info' \<longrightarrow> sl_album_image_url info' = None)"
proof (intro conjI impI)
  assume a: "\<forall>img \<in> set (alb_images (trk_album t)). image_height img \<le> 0"
  then have none: "select_album_image_url (alb_images (trk_album t)) = None"
    by (rule select_no_positive_height)
  {
    assume "UnspotifyTrackInfo_init f t = Inr info"
    with none show u: "album_image_url info = None"
      by (auto simp: UnspotifyTrackInfo_init_def split: list.splits sum.splits)
    assume "id3_open env p = None"
    with u show "snd (set_track_metadata env p info) = Some (AttributeError ''album_image_url'')"
      by (simp add: set_track_metadata_def)
  }
  assume "construct_track f t = Inr info'"
  with none show "sl_album_image_url info' = None"
    by (auto simp: construct_track_def split: sum.splits)
qed

theorem no_positive_height_no_cover_url_witness:
  "map_sum id album_image_url (UnspotifyTrackInfo_init no_isoformat (example_track None [] []))
     = Inr None \<and>
   map_sum id (\<lambda>info. snd (set_track_metadata example_tag_env ''Music/Song.mp3'' info))
     (UnspotifyTrackInfo_init no_isoformat (example_track None [] []))
     = Inr (Some (AttributeError ''album_image_url'')) \<and>
   map_sum id sl_album_image_url (construct_track no_isoformat (example_track None [] []))
     = Inr None"
proof -
  obtain info where i1: "UnspotifyTrackInfo_init no_isoformat (example_track None [] []) = Inr info"
    by (simp add: UnspotifyTrackInfo_init_def example_track_def normalize_release_date_def)
  obtain info' where i2: "construct_track no_isoformat (example_track None [] []) = Inr info'"
    by (simp add: construct_track_def example_track_def normalize_release_date_def)
  have h: "\<forall>img \<in> set (alb_images (trk_album (example_track None [] []))). image_height img \<le> 0"
    by (simp add: example_track_def)
  have o: "id3_open example_tag_env ''Music/Song.mp3'' = None"
    by (simp add: example_tag_env_def)
  from no_positive_height_no_cover_url [of "example_track None [] []" no_isoformat info
      example_tag_env "''Music/Song.mp3''" info'] h i1 i2 o
  show ?thesis by simp
qed

section \<open>The tag writer on completion\<close>






















section \<open>Iterating a playlist to exhaustion\<close>

lemma UnspotifyPlaylist_next_paged:
  "UnspotifyPlaylist_next f sp self =
     (case paged_next (UnspotifyTrackInfo_init f) sp (pl_playlist_id self)
             (pl_current_pos self, pl_current_tracks self) of
        (reqs, r, c) \<Rightarrow> (reqs, r, self\<lparr>pl_current_pos := fst c, pl_current_tracks := snd c\<rparr>))"
  by (simp add: UnspotifyPlaylist_next_def UnspotifyPlaylist_yield_def paged_next_def
      paged_yield_def Let_def split: option.splits)

lemma SpotifyPlaylistIterator_next_paged:
  "SpotifyPlaylistIterator_next f sp self =
     (case paged_next (construct_track f) sp (it_playlist_id self)
             (it_position self, it_current_tracks self) of
        (reqs, r, c) \<Rightarrow> (reqs, r, self\<lparr>it_position := fst c, it_current_tracks := snd c\<rparr>))"
  by (simp add: SpotifyPlaylistIterator_next_def SpotifyPlaylistIterator_yield_def paged_next_def
      paged_yield_def Let_def split: option.splits)

lemma py_list_Suc_prepend:
  "py_list (Suc n) nxt s =
     (case nxt s of
        (reqs, Inl e, s') \<Rightarrow> Some (reqs, (if e = StopIteration then Inr [] else Inl e), s')
      | (reqs, Inr x, s') \<Rightarrow> prepend reqs [x] (py_list n nxt s'))"
  by (auto simp: prepend_def map_sum_def split: prod.splits sum.splits option.splits)

lemma py_list_step_Inr:
  "nxt s = (reqs, Inr x, s') \<Longrightarrow> py_list (Suc n) nxt s = prepend reqs [x] (py_list n nxt s')"
  by (simp add: py_list_Suc_prepend del: py_list.simps)

lemma py_list_step_stop:
  "nxt s = (reqs, Inl StopIteration, s') \<Longrightarrow> py_list (Suc n) nxt s = Some (reqs, Inr [], s')"
  by simp

lemma prepend_prepend:
  "prepend reqs xs (prepend reqs' ys res) = prepend (reqs @ reqs') (xs @ ys) res"
  by (cases res) (auto simp: prepend_def split: prod.splits sum.splits)

lemma prepend_Nil: "prepend [] [] res = res"
  by (cases res) (auto simp: prepend_def split: prod.splits sum.splits)

lemma py_list_simulation:
  assumes step: "\<And>s. I s \<Longrightarrow> nxt s = (case nxt' (\<alpha> s) of (reqs, r, c) \<Rightarrow> (reqs, r, \<beta> s c))"
    and inv: "\<And>s c. I s \<Longrightarrow> I (\<beta> s c)"
    and ab: "\<And>s c. \<alpha> (\<beta> s c) = c"
    and bb: "\<And>s c c'. \<beta> (\<beta> s c) c' = \<beta> s c'"
  shows "I s \<Longrightarrow> py_list n nxt s =
           map_option (\<lambda>(reqs, r, c). (reqs, r, \<beta> s c)) (py_list n nxt' (\<alpha> s))"
proof (induction n arbitrary: s)
  case 0
  show ?case by simp
next
  case (Suc n)
  obtain reqs r c where n': "nxt' (\<alpha> s) = (reqs, r, c)"
    by (cases "nxt' (\<alpha> s)") auto
  then have n: "nxt s = (reqs, r, \<beta> s c)" using Suc.prems by (simp add: step)
  show ?case
  proof (cases r)
    case (Inl e)
    with n n' show ?thesis by simp
  next
    case (Inr x)
    have "I (\<beta> s c)" using Suc.prems by (rule inv)
    then have "py_list n nxt (\<beta> s c) =
        map_option (\<lambda>(reqs, r, c'). (reqs, r, \<beta> s c')) (py_list n nxt' c)"
      using Suc.IH [of "\<beta> s c"] by (simp add: ab bb)
    with n n' Inr show ?thesis
      by (cases "py_list n nxt' c") auto
  qed
qed

lemma py_list_more_calls:
  "py_list n nxt s = Some res \<Longrightarrow> n \<le> n' \<Longrightarrow> py_list n' nxt s = Some res"
proof (induction n arbitrary: n' s res)
  case 0
  then show ?case by simp
next
  case (Suc n)
  from Suc.prems obtain k where n': "n' = Suc k" and k: "n \<le> k"
    by (cases n') auto
  obtain reqs r s' where nx: "nxt s = (reqs, r, s')"
    by (cases "nxt s") auto
  show ?case
  proof (cases r)
    case (Inl e)
    with nx Suc.prems n' show ?thesis by simp
  next
    case (Inr x)
    with nx Suc.prems obtain res' where r': "py_list n nxt s' = Some res'"
      by (cases "py_list n nxt s'") auto
    from Suc.IH [OF r' k] have "py_list k nxt s' = Some res'" .
    with r' nx Inr Suc.prems n' show ?thesis by simp
  qed
qed

lemma paged_next_inside:
  assumes "fst c mod 100 = j" and "1 \<le> j" and "Suc j < length (snd c)" and "length (snd c) \<le> 100"
  shows "paged_next construct sp pid c =
           ([], construct (item_track (snd c ! Suc j)), (Suc (fst c), snd c))"
proof -
  from assms have "Suc (fst c) mod 100 = Suc j"
    by (simp add: mod_Suc)
  with assms show ?thesis
    by (simp add: paged_next_def paged_yield_def)
qed

lemma paged_next_inside_stop:
  assumes "fst c mod 100 = j" and "1 \<le> j" and "Suc j = length (snd c)"
    and "length (snd c) < 100"
  shows "paged_next construct sp pid c = ([], Inl StopIteration, (Suc (fst c), snd c))"
proof -
  from assms have "Suc (fst c) mod 100 = Suc j"
    by (simp add: mod_Suc)
  with assms show ?thesis
    by (simp add: paged_next_def paged_yield_def)
qed

lemma inner_steps:
  assumes ok: "\<forall>it \<in> set P. construct (item_track it) = Inr (g (item_track it))"
    and len: "length P \<le> 100"
  shows "pos mod 100 = j \<Longrightarrow> 1 \<le> j \<Longrightarrow> j + k < length P \<Longrightarrow>
     py_list (k + n) (paged_next construct sp pid) (pos, P) =
       prepend [] (map (\<lambda>it. g (item_track it)) (take k (drop (Suc j) P)))
         (py_list n (paged_next construct sp pid) (pos + k, P))"
proof (induction k arbitrary: pos j)
  case 0
  show ?case by (simp add: prepend_Nil)
next
  case (Suc k)
  have j: "Suc j < length P" using Suc.prems by simp
  have step: "paged_next construct sp pid (pos, P) =
      ([], Inr (g (item_track (P ! Suc j))), (Suc pos, P))"
    using paged_next_inside [of "(pos, P)" j construct sp pid] Suc.prems j len ok
    by simp
  have pos': "Suc pos mod 100 = Suc j"
    using Suc.prems j len by (simp add: mod_Suc)
  have IH: "py_list (k + n) (paged_next construct sp pid) (Suc pos, P) =
       prepend [] (map (\<lambda>it. g (item_track it)) (take k (drop (Suc (Suc j)) P)))
         (py_list n (paged_next construct sp pid) (Suc pos + k, P))"
    using Suc.IH [OF pos'] Suc.prems by simp
  have lst: "take (Suc k) (drop (Suc j) P) = P ! Suc j # take k (drop (Suc (Suc j)) P)"
    using j by (simp add: Cons_nth_drop_Suc [symmetric])
  have "py_list (Suc k + n) (paged_next construct sp pid) (pos, P) =
      prepend [] [g (item_track (P ! Suc j))]
        (py_list (k + n) (paged_next construct sp pid) (Suc pos, P))"
    by (simp add: py_list_Suc_prepend step del: py_list.simps)
  also have "\<dots> = prepend [] (map (\<lambda>it. g (item_track it)) (take (Suc k) (drop (Suc j) P)))
         (py_list n (paged_next construct sp pid) (pos + Suc k, P))"
    by (simp add: IH prepend_prepend lst)
  finally show ?case .
qed


lemma paged_next_fetch:
  assumes "sp_playlist_tracks sp pid 100 (100 * q) = Some pg" and "items pg = P"
    and "1 < length P" and "length P \<le> 100"
  shows "paged_next construct sp pid (100 * q, cur) =
           ([\<lparr>req_playlist_id = pid, req_limit = 100, req_offset = 100 * q\<rparr>],
            construct (item_track (P ! 1)), (Suc (100 * q), P))"
  using assms by (simp add: paged_next_def paged_yield_def mod_Suc)

lemma paged_next_fetch_stop:
  assumes "sp_playlist_tracks sp pid 100 (100 * q) = Some pg" and "items pg = P"
    and "length P \<le> 1"
  shows "paged_next construct sp pid (100 * q, cur) =
           ([\<lparr>req_playlist_id = pid, req_limit = 100, req_offset = 100 * q\<rparr>],
            Inl StopIteration, (Suc (100 * q), P))"
  using assms by (simp add: paged_next_def paged_yield_def mod_Suc)

lemma full_page:
  assumes fetch: "sp_playlist_tracks sp pid 100 (100 * q) = Some pg" "items pg = P"
    and len: "length P = 100"
    and ok: "\<forall>it \<in> set P. construct (item_track it) = Inr (g (item_track it))"
  shows "py_list (100 + n) (paged_next construct sp pid) (100 * q, cur) =
           prepend [\<lparr>req_playlist_id = pid, req_limit = 100, req_offset = 100 * q\<rparr>]
             (map (\<lambda>it. g (item_track it)) (tl P @ [hd P]))
             (py_list n (paged_next construct sp pid) (100 * q + 100, P))"
proof -
  let ?N = "paged_next construct sp pid"
  let ?rq = "\<lparr>req_playlist_id = pid, req_limit = 100, req_offset = 100 * q\<rparr>"
  have P1: "construct (item_track (P ! 1)) = Inr (g (item_track (P ! 1)))"
    and P0: "construct (item_track (P ! 0)) = Inr (g (item_track (P ! 0)))"
    using ok len by (simp_all add: nth_mem)
  have first: "?N (100 * q, cur) = ([?rq], Inr (g (item_track (P ! 1))), (Suc (100 * q), P))"
    using paged_next_fetch [OF fetch, of construct cur] len P1 by simp
  have a: "py_list (Suc (98 + Suc n)) ?N (100 * q, cur) =
      prepend [?rq] [g (item_track (P ! 1))] (py_list (98 + Suc n) ?N (Suc (100 * q), P))"
    using first
    by (rule py_list_step_Inr [of ?N "(100 * q, cur)" "[?rq]" "g (item_track (P ! 1))"
          "(Suc (100 * q), P)" "98 + Suc n"])
  have b: "py_list (98 + Suc n) ?N (Suc (100 * q), P) =
      prepend [] (map (\<lambda>it. g (item_track it)) (take 98 (drop (Suc 1) P)))
        (py_list (Suc n) ?N (Suc (100 * q) + 98, P))"
    using inner_steps [OF ok, of "Suc (100 * q)" 1 98 "Suc n" sp pid] len
    by (simp add: mod_Suc)
  have last: "?N (Suc (100 * q) + 98, P) = ([], Inr (g (item_track (P ! 0))), (100 * q + 100, P))"
  proof -
    have "(Suc (100 * q) + 98) mod 100 = 99" by presburger
    moreover have "Suc (Suc (100 * q) + 98) mod 100 = 0" by presburger
    moreover have "Suc (Suc (100 * q) + 98) = 100 * q + 100" by simp
    ultimately show ?thesis
      using len P0 by (simp add: paged_next_def paged_yield_def del: mult_Suc_right)
  qed
  have c: "py_list (Suc n) ?N (Suc (100 * q) + 98, P) =
      prepend [] [g (item_track (P ! 0))] (py_list n ?N (100 * q + 100, P))"
    using last
    by (rule py_list_step_Inr [of ?N "(Suc (100 * q) + 98, P)" "[]" "g (item_track (P ! 0))"
          "(100 * q + 100, P)" n])
  have lst: "P ! 1 # take 98 (drop (Suc 1) P) @ [P ! 0] = tl P @ [hd P]"
  proof -
    have "drop 1 P = P ! 1 # drop (Suc 1) P"
      using len by (simp add: Cons_nth_drop_Suc)
    moreover have "take 98 (drop (Suc 1) P) = drop (Suc 1) P"
      using len by simp
    moreover have "hd P = P ! 0" using len by (cases P) auto
    ultimately show ?thesis by (simp add: drop_Suc tl_drop)
  qed
  have "100 + n = Suc (98 + Suc n)" by simp
  then have "py_list (100 + n) ?N (100 * q, cur) =
      prepend [?rq] [g (item_track (P ! 1))]
        (prepend [] (map (\<lambda>it. g (item_track it)) (take 98 (drop (Suc 1) P)))
          (prepend [] [g (item_track (P ! 0))] (py_list n ?N (100 * q + 100, P))))"
    using a b c by simp
  also have "\<dots> = prepend [?rq]
      (map (\<lambda>it. g (item_track it)) (P ! 1 # take 98 (drop (Suc 1) P) @ [P ! 0]))
      (py_list n ?N (100 * q + 100, P))"
    by (simp add: prepend_prepend)
  finally show ?thesis by (simp only: lst)
qed


lemma last_page:
  assumes fetch: "sp_playlist_tracks sp pid 100 (100 * q) = Some pg" "items pg = P"
    and len: "length P < 100"
    and ok: "\<forall>it \<in> set P. construct (item_track it) = Inr (g (item_track it))"
  shows "\<exists>s. py_list (Suc (length P)) (paged_next construct sp pid) (100 * q, cur) =
           Some ([\<lparr>req_playlist_id = pid, req_limit = 100, req_offset = 100 * q\<rparr>],
                 Inr (map (\<lambda>it. g (item_track it)) (tl P)), s)"
proof (cases "length P \<le> 1")
  case True
  let ?N = "paged_next construct sp pid"
  let ?rq = "\<lparr>req_playlist_id = pid, req_limit = 100, req_offset = 100 * q\<rparr>"
  have "?N (100 * q, cur) = ([?rq], Inl StopIteration, (Suc (100 * q), P))"
    using paged_next_fetch_stop [OF fetch True] .
  then have "py_list (Suc 0) ?N (100 * q, cur) = Some ([?rq], Inr [], (Suc (100 * q), P))"
    by simp
  then have "py_list (Suc (length P)) ?N (100 * q, cur) = Some ([?rq], Inr [], (Suc (100 * q), P))"
    by (rule py_list_more_calls) simp
  moreover have "tl P = []" using True by (cases P) auto
  ultimately show ?thesis by simp
next
  case False
  let ?N = "paged_next construct sp pid"
  let ?rq = "\<lparr>req_playlist_id = pid, req_limit = 100, req_offset = 100 * q\<rparr>"
  let ?k = "length P - 2"
  from False have L: "2 \<le> length P" by simp
  have P1: "construct (item_track (P ! 1)) = Inr (g (item_track (P ! 1)))"
    using ok L by (simp add: nth_mem)
  have first: "?N (100 * q, cur) = ([?rq], Inr (g (item_track (P ! 1))), (Suc (100 * q), P))"
    using paged_next_fetch [OF fetch, of construct cur] L len P1 by simp
  have a: "py_list (Suc (?k + Suc 0)) ?N (100 * q, cur) =
      prepend [?rq] [g (item_track (P ! 1))] (py_list (?k + Suc 0) ?N (Suc (100 * q), P))"
    using first
    by (rule py_list_step_Inr [of ?N "(100 * q, cur)" "[?rq]" "g (item_track (P ! 1))"
          "(Suc (100 * q), P)" "?k + Suc 0"])
  have b: "py_list (?k + Suc 0) ?N (Suc (100 * q), P) =
      prepend [] (map (\<lambda>it. g (item_track it)) (take ?k (drop (Suc 1) P)))
        (py_list (Suc 0) ?N (Suc (100 * q) + ?k, P))"
    using inner_steps [OF ok, of "Suc (100 * q)" 1 ?k "Suc 0" sp pid] len L
    by (simp add: mod_Suc)
  have stop: "?N (Suc (100 * q) + ?k, P) = ([], Inl StopIteration, (Suc (Suc (100 * q) + ?k), P))"
  proof -
    have e: "Suc (100 * q) + ?k = 100 * q + (length P - 1)" using L by simp
    have "(100 * q + (length P - 1)) mod 100 = length P - 1" using len by simp
    then have m: "(Suc (100 * q) + ?k) mod 100 = length P - 1"
      by (simp only: e)
    show ?thesis
      using paged_next_inside_stop [of "(Suc (100 * q) + ?k, P)" "length P - 1" construct sp pid]
        m L len by simp
  qed
  have c: "py_list (Suc 0) ?N (Suc (100 * q) + ?k, P) =
      Some ([], Inr [], (Suc (Suc (100 * q) + ?k), P))"
    using stop
    by (rule py_list_step_stop [of ?N "(Suc (100 * q) + ?k, P)" "[]"
          "(Suc (Suc (100 * q) + ?k), P)" 0])
  have lst: "P ! 1 # take ?k (drop (Suc 1) P) = tl P"
  proof -
    have "drop 1 P = P ! 1 # drop (Suc 1) P"
      using L by (simp add: Cons_nth_drop_Suc)
    moreover have "take ?k (drop (Suc 1) P) = drop (Suc 1) P"
      by simp
    ultimately show ?thesis by (simp add: drop_Suc tl_drop)
  qed
  have e: "Suc (?k + Suc 0) = length P" using L by simp
  have "py_list (Suc (?k + Suc 0)) ?N (100 * q, cur) =
      prepend [?rq] [g (item_track (P ! 1))]
        (prepend [] (map (\<lambda>it. g (item_track it)) (take ?k (drop (Suc 1) P)))
          (Some ([], Inr [], (Suc (Suc (100 * q) + ?k), P))))"
    by (simp only: a b c)
  also have "\<dots> =
      Some ([?rq], Inr (map (\<lambda>it. g (item_track it)) (P ! 1 # take ?k (drop (Suc 1) P))),
            (Suc (Suc (100 * q) + ?k), P))"
    by (simp add: prepend_def)
  finally have "py_list (length P) ?N (100 * q, cur) =
      Some ([?rq], Inr (map (\<lambda>it. g (item_track it)) (P ! 1 # take ?k (drop (Suc 1) P))),
            (Suc (Suc (100 * q) + ?k), P))"
    by (simp only: e)
  then have "py_list (Suc (length P)) ?N (100 * q, cur) =
      Some ([?rq], Inr (map (\<lambda>it. g (item_track it)) (P ! 1 # take ?k (drop (Suc 1) P))),
            (Suc (Suc (100 * q) + ?k), P))"
    by (rule py_list_more_calls) simp
  then show ?thesis by (simp only: lst) blast
qed


lemma catalog_service_page:
  "sp_playlist_tracks (catalog_service nm ts) pid 100 off =
     Some \<lparr>items = map (\<lambda>t. \<lparr>item_track = t\<rparr>) (take 100 (drop off ts))\<rparr>"
  by (simp add: catalog_service_def)

lemma yielded_short: "length ts < 100 \<Longrightarrow> yielded ts = tl ts"
  by (simp add: yielded.simps)

lemma yielded_long:
  "100 \<le> length ts \<Longrightarrow> yielded ts = tl (take 100 ts) @ [hd ts] @ yielded (drop 100 ts)"
  by (subst yielded.simps) simp

lemma paged_list_catalog:
  assumes ok: "\<forall>t \<in> set ts. construct t = Inr (g t)"
  shows "length ts div 100 = q + m \<Longrightarrow>
     \<exists>s. py_list (100 * m + Suc (length ts mod 100))
            (paged_next construct (catalog_service nm ts) pid) (100 * q, cur) =
          Some (map (\<lambda>i. \<lparr>req_playlist_id = pid, req_limit = 100, req_offset = 100 * i\<rparr>)
                  [q..<Suc (q + m)],
                Inr (map g (yielded (drop (100 * q) ts))), s)"
proof (induction m arbitrary: q cur)
  case 0
  let ?D = "drop (100 * q) ts"
  let ?P = "map (\<lambda>t. \<lparr>item_track = t\<rparr>) (take 100 ?D)"
  have lenD: "length ?D = length ts mod 100"
    using 0 by (simp add: modulo_nat_def)
  then have short: "length ?D < 100" by simp
  have lenP: "length ?P = length ts mod 100" using lenD by simp
  have okP: "\<forall>it \<in> set ?P. construct (item_track it) = Inr (g (item_track it))"
    using ok by (auto dest!: in_set_takeD in_set_dropD)
  have "\<exists>s. py_list (Suc (length ?P)) (paged_next construct (catalog_service nm ts) pid)
            (100 * q, cur) =
          Some ([\<lparr>req_playlist_id = pid, req_limit = 100, req_offset = 100 * q\<rparr>],
                Inr (map (\<lambda>it. g (item_track it)) (tl ?P)), s)"
    by (rule last_page [OF catalog_service_page _ _ okP]) (use lenP in simp_all)
  then obtain s where r: "py_list (Suc (length ts mod 100))
        (paged_next construct (catalog_service nm ts) pid) (100 * q, cur) =
          Some ([\<lparr>req_playlist_id = pid, req_limit = 100, req_offset = 100 * q\<rparr>],
                Inr (map (\<lambda>it. g (item_track it)) (tl ?P)), s)"
    by (auto simp only: lenP)
  have "map (\<lambda>it. g (item_track it)) (tl ?P) = map g (tl ?D)"
    using short by (simp add: map_tl [symmetric] comp_def)
  also have "\<dots> = map g (yielded ?D)"
    using short by (simp add: yielded_short)
  finally have out: "map (\<lambda>it. g (item_track it)) (tl ?P) = map g (yielded ?D)" .
  show ?case
    using r by (simp add: out del: py_list.simps)
next
  case (Suc m)
  let ?N = "paged_next construct (catalog_service nm ts) pid"
  let ?D = "drop (100 * q) ts"
  let ?X = "take 100 ?D"
  let ?P = "map (\<lambda>t. \<lparr>item_track = t\<rparr>) ?X"
  let ?rq = "\<lambda>i. \<lparr>req_playlist_id = pid, req_limit = 100, req_offset = 100 * i\<rparr>"
  let ?n = "100 * m + Suc (length ts mod 100)"
  have big: "100 * q + 100 \<le> length ts"
  proof -
    have "100 * (length ts div 100) \<le> length ts" by simp
    with Suc.prems show ?thesis by simp
  qed
  then have lenD: "100 \<le> length ?D" by simp
  then have lenP: "length ?P = 100" by simp
  have okP: "\<forall>it \<in> set ?P. construct (item_track it) = Inr (g (item_track it))"
    using ok by (auto dest!: in_set_takeD in_set_dropD)
  have page: "py_list (100 + ?n) ?N (100 * q, cur) =
      prepend [?rq q] (map (\<lambda>it. g (item_track it)) (tl ?P @ [hd ?P]))
        (py_list ?n ?N (100 * q + 100, ?P))"
    by (rule full_page [OF catalog_service_page _ lenP okP]) simp
  have "length ts div 100 = Suc q + m" using Suc.prems by simp
  from Suc.IH [OF this, of ?P] obtain s where
    rest: "py_list ?n ?N (100 * Suc q, ?P) =
      Some (map ?rq [Suc q..<Suc (Suc q + m)], Inr (map g (yielded (drop (100 * Suc q) ts))), s)"
    by blast
  have pos: "100 * q + 100 = 100 * Suc q" by simp
  have X: "?X \<noteq> []" using lenD by auto
  have lst: "map (\<lambda>it. g (item_track it)) (tl ?P @ [hd ?P]) = map g (tl ?X @ [hd ?D])"
    using X by (simp add: map_tl [symmetric] hd_map comp_def)
  have dd: "drop (100 * Suc q) ts = drop 100 ?D" by (simp add: add.commute)
  have y: "yielded ?D = tl ?X @ [hd ?D] @ yielded (drop 100 ?D)"
    using lenD by (rule yielded_long)
  have fuel: "100 * Suc m + Suc (length ts mod 100) = 100 + ?n" by simp
  have reqs: "[q..<Suc (q + Suc m)] = q # [Suc q..<Suc (Suc q + m)]"
    by (simp add: upt_conv_Cons)
  have "py_list (100 + ?n) ?N (100 * q, cur) =
      Some (map ?rq (q # [Suc q..<Suc (Suc q + m)]),
            Inr (map g (tl ?X @ [hd ?D]) @ map g (yielded (drop 100 ?D))), s)"
    by (simp only: page pos rest lst dd) (simp add: prepend_def)
  then have "py_list (100 * Suc m + Suc (length ts mod 100)) ?N (100 * q, cur) =
      Some (map ?rq [q..<Suc (q + Suc m)], Inr (map g (yielded ?D)), s)"
    by (simp only: fuel reqs y map_append append_assoc)
  then show ?case by blast
qed


lemma UnspotifyPlaylist_list_paged:
  "py_list n (UnspotifyPlaylist_next f sp) self =
     map_option (\<lambda>(reqs, r, c). (reqs, r, self\<lparr>pl_current_pos := fst c, pl_current_tracks := snd c\<rparr>))
       (py_list n (paged_next (UnspotifyTrackInfo_init f) sp (pl_playlist_id self))
          (pl_current_pos self, pl_current_tracks self))"
proof -
  have "pl_playlist_id self = pl_playlist_id self \<Longrightarrow>
    py_list n (UnspotifyPlaylist_next f sp) self =
     map_option (\<lambda>(reqs, r, c). (reqs, r, self\<lparr>pl_current_pos := fst c, pl_current_tracks := snd c\<rparr>))
       (py_list n (paged_next (UnspotifyTrackInfo_init f) sp (pl_playlist_id self))
          ((\<lambda>s. (pl_current_pos s, pl_current_tracks s)) self))"
    by (rule py_list_simulation
          [where I = "\<lambda>s. pl_playlist_id s = pl_playlist_id self"
             and \<beta> = "\<lambda>s c. s\<lparr>pl_current_pos := fst c, pl_current_tracks := snd c\<rparr>"])
       (simp_all add: UnspotifyPlaylist_next_paged)
  then show ?thesis by simp
qed

lemma SpotifyPlaylistIterator_list_paged:
  "py_list n (SpotifyPlaylistIterator_next f sp) self =
     map_option (\<lambda>(reqs, r, c). (reqs, r, self\<lparr>it_position := fst c, it_current_tracks := snd c\<rparr>))
       (py_list n (paged_next (construct_track f) sp (it_playlist_id self))
          (it_position self, it_current_tracks self))"
proof -
  have "it_playlist_id self = it_playlist_id self \<Longrightarrow>
    py_list n (SpotifyPlaylistIterator_next f sp) self =
     map_option (\<lambda>(reqs, r, c). (reqs, r, self\<lparr>it_position := fst c, it_current_tracks := snd c\<rparr>))
       (py_list n (paged_next (construct_track f) sp (it_playlist_id self))
          ((\<lambda>s. (it_position s, it_current_tracks s)) self))"
    by (rule py_list_simulation
          [where I = "\<lambda>s. it_playlist_id s = it_playlist_id self"
             and \<beta> = "\<lambda>s c. s\<lparr>it_position := fst c, it_current_tracks := snd c\<rparr>"])
       (simp_all add: SpotifyPlaylistIterator_next_paged)
  then show ?thesis by simp
qed

lemma paged_list_catalog_from_start:
  assumes ok: "\<forall>t \<in> set ts. construct t = Inr (g t)" and n: "length ts < n"
  shows "\<exists>s. py_list n (paged_next construct (catalog_service nm ts) pid) (0, []) =
          Some (map (\<lambda>i. \<lparr>req_playlist_id = pid, req_limit = 100, req_offset = 100 * i\<rparr>)
                  [0..<Suc (length ts div 100)],
                Inr (map g (yielded ts)), s)"
proof -
  have "length ts div 100 = 0 + length ts div 100" by simp
  from paged_list_catalog [OF ok this, of nm pid "[]"] obtain s where
    "py_list (100 * (length ts div 100) + Suc (length ts mod 100))
        (paged_next construct (catalog_service nm ts) pid) (0, []) =
          Some (map (\<lambda>i. \<lparr>req_playlist_id = pid, req_limit = 100, req_offset = 100 * i\<rparr>)
                  [0..<Suc (length ts div 100)],
                Inr (map g (yielded ts)), s)"
    by auto
  moreover have "100 * (length ts div 100) + Suc (length ts mod 100) \<le> n"
    using n by simp
  ultimately have "py_list n (paged_next construct (catalog_service nm ts) pid) (0, []) =
          Some (map (\<lambda>i. \<lparr>req_playlist_id = pid, req_limit = 100, req_offset = 100 * i\<rparr>)
                  [0..<Suc (length ts div 100)],
                Inr (map g (yielded ts)), s)"
    by (rule py_list_more_calls)
  then show ?thesis by blast
qed

lemma UnspotifyPlaylist_list_catalog:
  assumes ok: "\<forall>t \<in> set ts. UnspotifyTrackInfo_init f t = Inr (g t)" and n: "length ts < n"
  shows "\<exists>s. py_list n (UnspotifyPlaylist_next f (catalog_service nm ts))
               (UnspotifyPlaylist_init (catalog_service nm ts) pid) =
          Some (map (\<lambda>i. \<lparr>req_playlist_id = pid, req_limit = 100, req_offset = 100 * i\<rparr>)
                  [0..<Suc (length ts div 100)],
                Inr (map g (yielded ts)), s)"
proof -
  from paged_list_catalog_from_start [OF ok n, of nm pid] obtain c where
    "py_list n (paged_next (UnspotifyTrackInfo_init f) (catalog_service nm ts) pid) (0, []) =
          Some (map (\<lambda>i. \<lparr>req_playlist_id = pid, req_limit = 100, req_offset = 100 * i\<rparr>)
                  [0..<Suc (length ts div 100)],
                Inr (map g (yielded ts)), c)"
    by blast
  then show ?thesis
    by (simp add: UnspotifyPlaylist_list_paged UnspotifyPlaylist_init_def del: py_list.simps)
qed

lemma SpotifyPlaylistIterator_list_catalog:
  assumes ok: "\<forall>t \<in> set ts. construct_track f t = Inr (g t)" and n: "length ts < n"
  shows "\<exists>s. py_list n (SpotifyPlaylistIterator_next f (catalog_service nm ts))
               (SpotifyPlaylistIterator_init pid) =
          Some (map (\<lambda>i. \<lparr>req_playlist_id = pid, req_limit = 100, req_offset = 100 * i\<rparr>)
                  [0..<Suc (length ts div 100)],
                Inr (map g (yielded ts)), s)"
proof -
  from paged_list_catalog_from_start [OF ok n, of nm pid] obtain c where
    "py_list n (paged_next (construct_track f) (catalog_service nm ts) pid) (0, []) =
          Some (map (\<lambda>i. \<lparr>req_playlist_id = pid, req_limit = 100, req_offset = 100 * i\<rparr>)
                  [0..<Suc (length ts div 100)],
                Inr (map g (yielded ts)), c)"
    by blast
  then show ?thesis
    by (simp add: SpotifyPlaylistIterator_list_paged SpotifyPlaylistIterator_init_def
        del: py_list.simps)
qed

lemma length_yielded:
  "length (yielded ts) = (if length ts mod 100 = 0 then length ts else length ts - 1)"
proof (induction ts rule: yielded.induct)
  case (1 ts)
  show ?case
  proof (cases "length ts < 100")
    case True
    then show ?thesis by (cases ts) (simp_all add: yielded_short)
  next
    case False
    then have L: "100 \<le> length ts" by simp
    have m: "(length ts - 100) mod 100 = length ts mod 100"
      using L by (simp add: le_mod_geq)
    have "length (yielded ts) = 100 + length (yielded (drop 100 ts))"
      using L by (simp add: yielded_long)
    also have "\<dots> = 100 + (if length ts mod 100 = 0 then length ts - 100 else length ts - 100 - 1)"
      using 1 False m by simp
    also have "\<dots> = (if length ts mod 100 = 0 then length ts else length ts - 1)"
    proof (cases "length ts mod 100 = 0")
      case True
      then show ?thesis using L by simp
    next
      case False
      then have "length ts \<noteq> 100" by auto
      with L False show ?thesis by simp
    qed
    finally show ?thesis .
  qed
qed


lemma three_pages: "[0..<3] = [0, 1, 2::nat]"
  by (simp add: upt_rec)

text \<open>
  C1. For a playlist of 250 tracks that all normalize, iterating to exhaustion makes
  three page requests with limit 100, at the offsets 0, 100 and 200, and then ends
  normally; but the sequence has 249 elements, not 250. The position is advanced before
  it is used as an index into the page, so the item 0 of a page is reached only when the
  position wraps around, which the last page, of 50 items, never lets it do.
\<close>

theorem playlist_of_250_tracks_yields_249:
  "length ts = 250 \<and> 250 < n \<longrightarrow>
     ((\<forall>t \<in> set ts. \<exists>info. UnspotifyTrackInfo_init f t = Inr info) \<longrightarrow>
        (\<exists>xs s. py_list n (UnspotifyPlaylist_next f (catalog_service nm ts))
                   (UnspotifyPlaylist_init (catalog_service nm ts) pid) =
                 Some ([\<lparr>req_playlist_id = pid, req_limit = 100, req_offset = 0\<rparr>,
                        \<lparr>req_playlist_id = pid, req_limit = 100, req_offset = 100\<rparr>,
                        \<lparr>req_playlist_id = pid, req_limit = 100, req_offset = 200\<rparr>],
                       Inr xs, s) \<and>
                 length xs = 249)) \<and>
     ((\<forall>t \<in> set ts. \<exists>info. construct_track f t = Inr info) \<longrightarrow>
        (\<exists>xs s. SpotifyPlaylist_fetch_tracks n f (catalog_service nm ts)
                   (SpotifyPlaylist_init (catalog_service nm ts) pid) =
                 Some ([\<lparr>req_playlist_id = pid, req_limit = 100, req_offset = 0\<rparr>,
                        \<lparr>req_playlist_id = pid, req_limit = 100, req_offset = 100\<rparr>,
                        \<lparr>req_playlist_id = pid, req_limit = 100, req_offset = 200\<rparr>],
                       Inr xs, s) \<and>
                 length xs = 249))"
proof (intro impI conjI)
  assume a: "length ts = 250 \<and> 250 < n"
  then have n: "length ts < n" by simp
  have len: "length (yielded ts) = 249"
    using a by (simp add: length_yielded)
  {
    assume "\<forall>t \<in> set ts. \<exists>info. UnspotifyTrackInfo_init f t = Inr info"
    then have ok: "\<forall>t \<in> set ts. UnspotifyTrackInfo_init f t =
        Inr (projr (UnspotifyTrackInfo_init f t))"
      by auto
    from UnspotifyPlaylist_list_catalog [OF ok n, of nm pid] a len
    show "\<exists>xs s. py_list n (UnspotifyPlaylist_next f (catalog_service nm ts))
                   (UnspotifyPlaylist_init (catalog_service nm ts) pid) =
                 Some ([\<lparr>req_playlist_id = pid, req_limit = 100, req_offset = 0\<rparr>,
                        \<lparr>req_playlist_id = pid, req_limit = 100, req_offset = 100\<rparr>,
                        \<lparr>req_playlist_id = pid, req_limit = 100, req_offset = 200\<rparr>],
                       Inr xs, s) \<and>
                 length xs = 249"
      by (auto simp: three_pages simp del: py_list.simps)
  }
  assume "\<forall>t \<in> set ts. \<exists>info. construct_track f t = Inr info"
  then have ok: "\<forall>t \<in> set ts. construct_track f t = Inr (projr (construct_track f t))"
    by auto
  from SpotifyPlaylistIterator_list_catalog [OF ok n, of nm pid] a len
  show "\<exists>xs s. SpotifyPlaylist_fetch_tracks n f (catalog_service nm ts)
                   (SpotifyPlaylist_init (catalog_service nm ts) pid) =
                 Some ([\<lparr>req_playlist_id = pid, req_limit = 100, req_offset = 0\<rparr>,
                        \<lparr>req_playlist_id = pid, req_limit = 100, req_offset = 100\<rparr>,
                        \<lparr>req_playlist_id = pid, req_limit = 100, req_offset = 200\<rparr>],
                       Inr xs, s) \<and>
                 length xs = 249"
    by (auto simp: three_pages SpotifyPlaylist_fetch_tracks_def SpotifyPlaylist_init_def
        simp del: py_list.simps)
qed

theorem playlist_of_250_tracks_yields_249_witness:
  "map_option (\<lambda>(reqs, r, s). (map req_offset reqs, map req_limit reqs, map_sum id length r))
     (py_list 251
        (UnspotifyPlaylist_next no_isoformat
           (catalog_service ''Playlist'' (replicate 250 (example_track None [] []))))
        (UnspotifyPlaylist_init
           (catalog_service ''Playlist'' (replicate 250 (example_track None [] []))) ''abc123''))
     = Some ([0, 100, 200], [100, 100, 100], Inr 249) \<and>
   map_option (\<lambda>(reqs, r, s). (map req_offset reqs, map req_limit reqs, map_sum id length r))
     (SpotifyPlaylist_fetch_tracks 251 no_isoformat
        (catalog_service ''Playlist'' (replicate 250 (example_track None [] [])))
        (SpotifyPlaylist_init
           (catalog_service ''Playlist'' (replicate 250 (example_track None [] []))) ''abc123''))
     = Some ([0, 100, 200], [100, 100, 100], Inr 249)"
proof -
  let ?ts = "replicate 250 (example_track None [] [])"
  have h: "length ?ts = 250 \<and> 250 < (251::nat)" by simp
  have u: "\<forall>t \<in> set ?ts. \<exists>info. UnspotifyTrackInfo_init no_isoformat t = Inr info"
    by (simp add: UnspotifyTrackInfo_init_def example_track_def normalize_release_date_def)
  have c: "\<forall>t \<in> set ?ts. \<exists>info. construct_track no_isoformat t = Inr info"
    by (simp add: construct_track_def example_track_def normalize_release_date_def)
  note inst = playlist_of_250_tracks_yields_249 [of ?ts 251 no_isoformat "''Playlist''" "''abc123''"]
  from inst h u obtain xs s where
    1: "py_list 251 (UnspotifyPlaylist_next no_isoformat (catalog_service ''Playlist'' ?ts))
                   (UnspotifyPlaylist_init (catalog_service ''Playlist'' ?ts) ''abc123'') =
                 Some ([\<lparr>req_playlist_id = ''abc123'', req_limit = 100, req_offset = 0\<rparr>,
                        \<lparr>req_playlist_id = ''abc123'', req_limit = 100, req_offset = 100\<rparr>,
                        \<lparr>req_playlist_id = ''abc123'', req_limit = 100, req_offset = 200\<rparr>],
                       Inr xs, s)" "length xs = 249"
    by blast
  from inst h c obtain ys s' where
    2: "SpotifyPlaylist_fetch_tracks 251 no_isoformat (catalog_service ''Playlist'' ?ts)
                   (SpotifyPlaylist_init (catalog_service ''Playlist'' ?ts) ''abc123'') =
                 Some ([\<lparr>req_playlist_id = ''abc123'', req_limit = 100, req_offset = 0\<rparr>,
                        \<lparr>req_playlist_id = ''abc123'', req_limit = 100, req_offset = 100\<rparr>,
                        \<lparr>req_playlist_id = ''abc123'', req_limit = 100, req_offset = 200\<rparr>],
                       Inr ys, s')" "length ys = 249"
    by blast
  show ?thesis using 1 2 by (simp del: py_list.simps)
qed


text \<open>
  C2. The elements are not produced in catalog order. When every track normalizes,
  iterating to exhaustion produces the normalizations of \<open>yielded ts\<close>: for a playlist
  shorter than a page that is \<open>tl ts\<close>, so the first element produced is the second
  track and the first track is never produced; a full page is produced from its second
  item on, with its first item last.
\<close>

theorem iteration_order_is_rotated:
  "length ts < n \<longrightarrow>
     ((\<forall>t \<in> set ts. UnspotifyTrackInfo_init f t = Inr (g t)) \<longrightarrow>
        (\<exists>reqs s. py_list n (UnspotifyPlaylist_next f (catalog_service nm ts))
                     (UnspotifyPlaylist_init (catalog_service nm ts) pid) =
                   Some (reqs, Inr (map g (yielded ts)), s))) \<and>
     ((\<forall>t \<in> set ts. construct_track f t = Inr (g' t)) \<longrightarrow>
        (\<exists>reqs s. SpotifyPlaylist_fetch_tracks n f (catalog_service nm ts)
                     (SpotifyPlaylist_init (catalog_service nm ts) pid) =
                   Some (reqs, Inr (map g' (yielded ts)), s))) \<and>
     (length ts < 100 \<longrightarrow> yielded ts = tl ts) \<and>
     (100 \<le> length ts \<longrightarrow>
        yielded ts = tl (take 100 ts) @ [hd ts] @ yielded (drop 100 ts))"
proof (intro impI conjI)
  assume n: "length ts < n"
  {
    assume ok: "\<forall>t \<in> set ts. UnspotifyTrackInfo_init f t = Inr (g t)"
    from UnspotifyPlaylist_list_catalog [OF ok n, of nm pid]
    show "\<exists>reqs s. py_list n (UnspotifyPlaylist_next f (catalog_service nm ts))
                     (UnspotifyPlaylist_init (catalog_service nm ts) pid) =
                   Some (reqs, Inr (map g (yielded ts)), s)"
      by blast
  }
  {
    assume ok: "\<forall>t \<in> set ts. construct_track f t = Inr (g' t)"
    from SpotifyPlaylistIterator_list_catalog [OF ok n, of nm pid]
    show "\<exists>reqs s. SpotifyPlaylist_fetch_tracks n f (catalog_service nm ts)
                     (SpotifyPlaylist_init (catalog_service nm ts) pid) =
                   Some (reqs, Inr (map g' (yielded ts)), s)"
      by (auto simp: SpotifyPlaylist_fetch_tracks_def SpotifyPlaylist_init_def
          simp del: py_list.simps)
  }
  {
    assume "length ts < 100"
    then show "yielded ts = tl ts" by (rule yielded_short)
  }
  assume "100 \<le> length ts"
  then show "yielded ts = tl (take 100 ts) @ [hd ts] @ yielded (drop 100 ts)"
    by (rule yielded_long)
qed

lemma example_pair_unspotify:
  "UnspotifyTrackInfo_init no_isoformat (example_track None [] []) =
     Inr \<lparr>name = ''Song'', artist = ''Artist'', track_number = 7, disc_number = 1,
          album_name = ''Album'', album_image_url = None, release_date = None\<rparr>"
  "UnspotifyTrackInfo_init no_isoformat (example_track (Some ''year'') ''2024'' []) =
     Inr \<lparr>name = ''Song'', artist = ''Artist'', track_number = 7, disc_number = 1,
          album_name = ''Album'', album_image_url = None,
          release_date = Some \<lparr>year = 2024, month = 1, day = 1\<rparr>\<rparr>"
  by (simp_all add: UnspotifyTrackInfo_init_def example_track_def normalize_release_date_def
      year_release_date_2024 select_album_image_url_def)

lemma example_pair_spotless:
  "construct_track no_isoformat (example_track None [] []) =
     Inr \<lparr>sl_name = ''Song'', sl_artists = [''Artist''], sl_track_number = 7,
          sl_album_name = ''Album'', sl_album_image_url = None, sl_release_date = None\<rparr>"
  "construct_track no_isoformat (example_track (Some ''year'') ''2024'' []) =
     Inr \<lparr>sl_name = ''Song'', sl_artists = [''Artist''], sl_track_number = 7,
          sl_album_name = ''Album'', sl_album_image_url = None,
          sl_release_date = Some \<lparr>year = 2024, month = 1, day = 1\<rparr>\<rparr>"
  by (simp_all add: construct_track_def example_track_def normalize_release_date_def
      year_release_date_2024 select_album_image_url_def)

theorem iteration_order_is_rotated_witness:
  "map_option (fst \<circ> snd)
     (py_list 3 (UnspotifyPlaylist_next no_isoformat (catalog_service ''Playlist'' example_pair))
        (UnspotifyPlaylist_init (catalog_service ''Playlist'' example_pair) ''abc123''))
     = Some (Inr [\<lparr>name = ''Song'', artist = ''Artist'', track_number = 7, disc_number = 1,
                   album_name = ''Album'', album_image_url = None,
                   release_date = Some \<lparr>year = 2024, month = 1, day = 1\<rparr>\<rparr>]) \<and>
   map_option (fst \<circ> snd)
     (SpotifyPlaylist_fetch_tracks 3 no_isoformat (catalog_service ''Playlist'' example_pair)
        (SpotifyPlaylist_init (catalog_service ''Playlist'' example_pair) ''abc123''))
     = Some (Inr [\<lparr>sl_name = ''Song'', sl_artists = [''Artist''], sl_track_number = 7,
                   sl_album_name = ''Album'', sl_album_image_url = None,
                   sl_release_date = Some \<lparr>year = 2024, month = 1, day = 1\<rparr>\<rparr>])"
proof -
  let ?g = "\<lambda>t. projr (UnspotifyTrackInfo_init no_isoformat t)"
  let ?g' = "\<lambda>t. projr (construct_track no_isoformat t)"
  have n: "length example_pair < 3" "length example_pair < 100"
    by (simp_all add: example_pair_def)
  have u: "\<forall>t \<in> set example_pair. UnspotifyTrackInfo_init no_isoformat t = Inr (?g t)"
    by (simp add: example_pair_def example_pair_unspotify)
  have c: "\<forall>t \<in> set example_pair. construct_track no_isoformat t = Inr (?g' t)"
    by (simp add: example_pair_def example_pair_spotless)
  note inst = iteration_order_is_rotated [of example_pair 3 no_isoformat ?g "''Playlist''"
      "''abc123''" ?g']
  from inst n have y: "yielded example_pair = [example_track (Some ''year'') ''2024'' []]"
    by (simp add: example_pair_def)
  from inst n u obtain reqs s where
    1: "py_list 3 (UnspotifyPlaylist_next no_isoformat (catalog_service ''Playlist'' example_pair))
          (UnspotifyPlaylist_init (catalog_service ''Playlist'' example_pair) ''abc123'') =
        Some (reqs, Inr (map ?g (yielded example_pair)), s)"
    by blast
  from inst n c obtain reqs' s' where
    2: "SpotifyPlaylist_fetch_tracks 3 no_isoformat (catalog_service ''Playlist'' example_pair)
          (SpotifyPlaylist_init (catalog_service ''Playlist'' example_pair) ''abc123'') =
        Some (reqs', Inr (map ?g' (yielded example_pair)), s')"
    by blast
  show ?thesis
    using 1 2 by (simp add: y example_pair_unspotify example_pair_spotless del: py_list.simps)
qed

end
